theory Spec2Isabelle
  imports Main
begin

section \<open>Seating allocation: data model\<close>

text \<open>
  The model follows three route handlers of the repository:
  \<^item> the automatic placement, \<^verbatim>\<open>POST\<close> of
    \<^verbatim>\<open>src/app/api/hostel/list/route.ts\<close> (second part, lines 137-432);
  \<^item> the creation of a room allocation, \<^verbatim>\<open>POST\<close> of
    \<^verbatim>\<open>src/app/api/room-allocation/create/route.ts\<close> (first part, lines 7-143);
  \<^item> the manual student assignment, \<^verbatim>\<open>POST\<close> of the same file
    (third part, lines 277-538).

  Each handler is modelled from the point where the request body has been read: the
  session and the tenant resolution are outside the model, and the resolved
  \<^verbatim>\<open>schoolId\<close> is an argument. The Prisma store is a record of tables (lists of
  rows, in the order the store returns them); every query of the handlers is a function
  on these tables, and a handler returns its response together with the store it leaves.

  Identifiers are strings. Row, column and bench position are the integers of the
  store and, in a request, JSON numbers that are integers. The handlers of
  \<^verbatim>\<open>room-allocation/create/route.ts\<close> do not check the type of these fields: they
  compare the value as it was sent (\<^verbatim>\<open>rows < 1\<close>, \<^verbatim>\<open>row > roomAllocation.rows\<close>),
  build the keys of the position map from it by string interpolation and arithmetic
  (\<^verbatim>\<open>row - 1\<close>, \<^verbatim>\<open>row + 1\<close>), and store \<^verbatim>\<open>parseInt\<close> of it. On an integer number
  these three readings agree, and this is what the model follows. On a string or on a
  number with a fraction they differ (\<^verbatim>\<open>parseInt\<close> of \<^verbatim>\<open>1.5\<close> is 1, of
  \<^verbatim>\<open>'300abc'\<close> is 300, while \<^verbatim>\<open>'300abc' < 1\<close> and \<^verbatim>\<open>'300abc' * 10 > 200\<close> are
  both false): such requests are not represented, and no statement below speaks about
  them.
  A room name is the list of its UTF-16 code units, as integers, since the handler trims
  it.
\<close>

type_synonym ident = string

record student =
  student_id :: ident
  student_schoolId :: ident
  student_classId :: "ident option"
  student_userName :: "string option"

record roomStudentAssignment =
  asg_roomAllocationId :: ident
  asg_studentId :: ident
  asg_row :: int
  asg_column :: int
  asg_benchPosition :: int

record roomAllocation =
  room_id :: ident
  room_schoolId :: ident
  room_name :: "int list"
  rows :: int
  columns :: int
  studentsPerBench :: int

record schoolClass =
  class_id :: ident
  class_schoolId :: ident

text \<open>
  The Prisma schema is not among the sources. The handlers catch the error code
  \<^verbatim>\<open>P2002\<close> (a unique index refused an insert), so the schema declares some
  unique index, but which one is not visible. Whether the table of assignments has a
  unique index over (room allocation, row, column, bench position) is therefore a field
  of the store, \<open>uniqueSeatIndex\<close>, and every statement below is made for both of its
  values unless it says otherwise.
\<close>

record db =
  roomAllocations :: "roomAllocation list"
  students :: "student list"
  classes :: "schoolClass list"
  classRooms :: "(ident \<times> ident) list"
  roomStudentAssignments :: "roomStudentAssignment list"
  uniqueSeatIndex :: bool

subsection \<open>The position map\<close>

text \<open>
  Both handlers keep a \<^verbatim>\<open>Map\<close> from the template string
  \<^verbatim>\<open>`${row}-${column}-${benchPosition}`\<close> to the occupant of the seat. The decimal
  rendering of three integers joined by \<^verbatim>\<open>-\<close> determines the three integers,
  so the key of the model is the triple itself. The order of the entries of this map is
  never observed, so it is a partial function.
\<close>

type_synonym key = "int \<times> int \<times> int"

record occupant =
  occ_studentId :: ident
  occ_classId :: "ident option"

type_synonym positionMap = "key \<Rightarrow> occupant option"

definition posKey :: "int \<Rightarrow> int \<Rightarrow> int \<Rightarrow> key" where
  "posKey row col benchPosition = (row, col, benchPosition)"

text \<open>
  JavaScript truthiness of a value of type \<^verbatim>\<open>string | null\<close>: \<^verbatim>\<open>null\<close> and the
  empty string are falsy.
\<close>

definition truthy :: "string option \<Rightarrow> bool" where
  "truthy v = (case v of None \<Rightarrow> False | Some s \<Rightarrow> s \<noteq> [])"

text \<open>
  The test \<^verbatim>\<open>adj && adj.classId === studentClassId && adj.classId\<close> on the entry
  of one key.
\<close>

definition sameClassAt :: "positionMap \<Rightarrow> key \<Rightarrow> ident option \<Rightarrow> bool" where
  "sameClassAt pm k studentClassId =
     (case pm k of
        None \<Rightarrow> False
      | Some adj \<Rightarrow> occ_classId adj = studentClassId \<and> truthy (occ_classId adj))"

text \<open>The array \<^verbatim>\<open>adjacentPositions\<close> of the one-student-per-bench branch.\<close>

definition adjacentPositions :: "int \<Rightarrow> int \<Rightarrow> key list" where
  "adjacentPositions row col =
     [posKey row (col - 1) 1, posKey row (col + 1) 1,
      posKey (row - 1) col 1, posKey (row + 1) col 1]"

text \<open>The closure \<^verbatim>\<open>checkSide\<close> of the two-students-per-bench branch.\<close>

definition checkSide :: "positionMap \<Rightarrow> ident option \<Rightarrow> int \<Rightarrow> int \<Rightarrow> bool" where
  "checkSide pm studentClassId checkRow checkCol =
     (sameClassAt pm (posKey checkRow checkCol 1) studentClassId \<or>
      sameClassAt pm (posKey checkRow checkCol 2) studentClassId)"

subsection \<open>The constraint predicate of the automatic path\<close>

text \<open>\<^verbatim>\<open>isPositionAvailable\<close>, lines 271-323 of the automatic handler.\<close>

definition isPositionAvailable ::
  "roomAllocation \<Rightarrow> positionMap \<Rightarrow> int \<Rightarrow> int \<Rightarrow> int \<Rightarrow> ident option \<Rightarrow> bool" where
  "isPositionAvailable room pm row col benchPosition studentClassId =
     (if pm (posKey row col benchPosition) \<noteq> None then False
      else if studentsPerBench room = 1 then
        (if list_ex (\<lambda>adjKey. sameClassAt pm adjKey studentClassId) (adjacentPositions row col)
         then False else True)
      else
        (let sameBenchPos = (if benchPosition = 1 then 2 else 1) in
         if sameClassAt pm (posKey row col sameBenchPos) studentClassId then False
         else if col > 1 \<and> checkSide pm studentClassId row (col - 1) then False
         else if col < columns room \<and> checkSide pm studentClassId row (col + 1) then False
         else True))"

subsection \<open>The automatic placement\<close>

record placement =
  pl_studentId :: ident
  pl_row :: int
  pl_column :: int
  pl_benchPosition :: int

text \<open>
  \<^verbatim>\<open>studentsByClass\<close> is a \<^verbatim>\<open>Map\<close> whose iteration order (the order of first
  insertion of each key) is observed, so it is an association list: a class met for the
  first time is appended with an empty group, then the student is pushed on the group of
  its class.
\<close>

definition pushStudent ::
  "(ident option \<times> student list) list \<Rightarrow> student \<Rightarrow> (ident option \<times> student list) list" where
  "pushStudent m s =
     (let m' = (if map_of m (student_classId s) = None then m @ [(student_classId s, [])] else m)
      in map (\<lambda>(k, g). if k = student_classId s then (k, g @ [s]) else (k, g)) m')"

definition studentsByClass :: "student list \<Rightarrow> (ident option \<times> student list) list" where
  "studentsByClass studs = foldl pushStudent [] studs"

text \<open>
  The three nested loops over \<open>row\<close>, \<open>col\<close> and \<open>benchPos\<close>, each ascending from 1 and
  each guarded by \<^verbatim>\<open>!assigned\<close>, visit the seats in this order and stop at the first
  available one.
\<close>

definition scanOrder :: "roomAllocation \<Rightarrow> key list" where
  "scanOrder room =
     concat (map (\<lambda>row. concat (map (\<lambda>col. map (\<lambda>benchPos. posKey row col benchPos)
       [1..studentsPerBench room]) [1..columns room])) [1..rows room])"

record solver =
  sv_positionMap :: positionMap
  sv_assignments :: "placement list"
  sv_unassigned :: "student list"

definition placeStudent :: "roomAllocation \<Rightarrow> solver \<Rightarrow> student \<Rightarrow> solver" where
  "placeStudent room st s =
     (case find (\<lambda>(row, col, benchPos).
                   isPositionAvailable room (sv_positionMap st) row col benchPos (student_classId s))
                (scanOrder room) of
        Some (row, col, benchPos) \<Rightarrow>
          st\<lparr>sv_assignments := sv_assignments st @
                [\<lparr>pl_studentId = student_id s, pl_row = row, pl_column = col,
                  pl_benchPosition = benchPos\<rparr>],
             sv_positionMap := (sv_positionMap st)(posKey row col benchPos \<mapsto>
                \<lparr>occ_studentId = student_id s, occ_classId = student_classId s\<rparr>)\<rparr>
      | None \<Rightarrow> st\<lparr>sv_unassigned := sv_unassigned st @ [s]\<rparr>)"

definition solve :: "roomAllocation \<Rightarrow> positionMap \<Rightarrow> student list \<Rightarrow> solver" where
  "solve room pm studs =
     foldl (placeStudent room)
       \<lparr>sv_positionMap = pm, sv_assignments = [], sv_unassigned = []\<rparr>
       (concat (map snd (studentsByClass studs)))"

subsection \<open>The store queries and writes of the assignment handlers\<close>

text \<open>
  \<^verbatim>\<open>prisma.roomAllocation.findFirst\<close> with \<^verbatim>\<open>where: { id, schoolId }\<close>, and the rows
  its \<^verbatim>\<open>include: { studentAssignments }\<close> loads.
\<close>

definition findFirstRoom :: "db \<Rightarrow> ident \<Rightarrow> ident \<Rightarrow> roomAllocation option" where
  "findFirstRoom d roomAllocationId schoolId =
     find (\<lambda>r. room_id r = roomAllocationId \<and> room_schoolId r = schoolId) (roomAllocations d)"

definition studentAssignments :: "db \<Rightarrow> ident \<Rightarrow> roomStudentAssignment list" where
  "studentAssignments d roomAllocationId =
     filter (\<lambda>a. asg_roomAllocationId a = roomAllocationId) (roomStudentAssignments d)"

text \<open>
  \<^verbatim>\<open>existing.student.classId\<close>: the class of the student row that the assignment
  refers to. The foreign key makes the row exist; without it the model reads no class.
\<close>

definition classIdOf :: "db \<Rightarrow> ident \<Rightarrow> ident option" where
  "classIdOf d sid =
     (case find (\<lambda>s. student_id s = sid) (students d) of
        None \<Rightarrow> None
      | Some s \<Rightarrow> student_classId s)"

text \<open>\<^verbatim>\<open>prisma.student.findMany\<close> with \<^verbatim>\<open>where: { id: { in: ids }, schoolId }\<close>.\<close>

definition findManyStudents :: "db \<Rightarrow> ident list \<Rightarrow> ident \<Rightarrow> student list" where
  "findManyStudents d ids schoolId =
     filter (\<lambda>s. student_id s \<in> set ids \<and> student_schoolId s = schoolId) (students d)"

datatype storeWrite =
    DeleteMany ident "ident list"
  | CreateMany "roomStudentAssignment list"

definition deleteMany :: "db \<Rightarrow> ident \<Rightarrow> ident list \<Rightarrow> db" where
  "deleteMany d roomAllocationId ids =
     d\<lparr>roomStudentAssignments :=
         filter (\<lambda>a. \<not> (asg_roomAllocationId a = roomAllocationId \<and> asg_studentId a \<in> set ids))
           (roomStudentAssignments d)\<rparr>"

definition seatOf :: "roomStudentAssignment \<Rightarrow> ident \<times> key" where
  "seatOf a = (asg_roomAllocationId a, posKey (asg_row a) (asg_column a) (asg_benchPosition a))"

text \<open>
  \<^verbatim>\<open>createMany\<close> is one insert statement: it appends all rows, or, when the store has
  the unique seat index and the rows would break it, it throws \<^verbatim>\<open>P2002\<close> (the result
  \<open>None\<close>) and appends nothing.
\<close>

definition createMany :: "db \<Rightarrow> roomStudentAssignment list \<Rightarrow> db option" where
  "createMany d new =
     (if uniqueSeatIndex d \<and> \<not> distinct (map seatOf (roomStudentAssignments d @ new))
      then None
      else Some (d\<lparr>roomStudentAssignments := roomStudentAssignments d @ new\<rparr>))"

text \<open>\<^verbatim>\<open>Array.from(new Set(xs))\<close>: the distinct elements in the order of first occurrence.\<close>

definition setFrom :: "'a list \<Rightarrow> 'a list" where
  "setFrom xs = foldl (\<lambda>acc x. if x \<in> set acc then acc else acc @ [x]) [] xs"

text \<open>The loop that fills \<^verbatim>\<open>positionMap\<close> from the existing assignments, in both handlers.\<close>

definition seedPositionMap :: "db \<Rightarrow> roomStudentAssignment list \<Rightarrow> positionMap" where
  "seedPositionMap d existing =
     foldl (\<lambda>pm e. pm(posKey (asg_row e) (asg_column e) (asg_benchPosition e) \<mapsto>
              \<lparr>occ_studentId = asg_studentId e, occ_classId = classIdOf d (asg_studentId e)\<rparr>))
       Map.empty existing"

text \<open>
  Lines 248-261 of the automatic handler: for every student of the existing assignments
  that is among the requested ones, every entry of the map that holds this student is
  deleted.
\<close>

definition removeStudent :: "ident \<Rightarrow> positionMap \<Rightarrow> positionMap" where
  "removeStudent sid pm =
     (\<lambda>k. case pm k of
             None \<Rightarrow> None
           | Some v \<Rightarrow> if occ_studentId v = sid then None else Some v)"

definition removeReassigned :: "ident list \<Rightarrow> ident list \<Rightarrow> positionMap \<Rightarrow> positionMap" where
  "removeReassigned existingStudentIds uniqueStudentIds pm =
     foldl (\<lambda>m sid. if sid \<in> set uniqueStudentIds then removeStudent sid m else m)
       pm existingStudentIds"

subsection \<open>The automatic handler\<close>

record autoRequest =
  areq_roomAllocationId :: "ident option"
  areq_studentIds :: "ident list option"

text \<open>
  The responses of the handler. \<open>AutoCouldNotAssign n names partial\<close> is the status-400
  response whose message carries the number \<open>n\<close> of unassigned students, whose field
  \<^verbatim>\<open>unassigned\<close> is \<open>names\<close> and whose field \<^verbatim>\<open>partialAssignments\<close> is \<open>partial\<close>;
  \<open>AutoAssigned n assignments\<close> is the status-200 response.
\<close>

datatype autoResponse =
    AutoRequiredFields
  | AutoRoomNotFound
  | AutoSomeStudentsNotFound
  | AutoDuplicateStudents
  | AutoCouldNotAssign nat "string list" "placement list"
  | AutoAssigned nat "placement list"
  | AutoDuplicateAssignment

text \<open>\<^verbatim>\<open>s.user?.name || s.id\<close>\<close>

definition displayName :: "student \<Rightarrow> string" where
  "displayName s =
     (case student_userName s of
        None \<Rightarrow> student_id s
      | Some name \<Rightarrow> if name = [] then student_id s else name)"

definition placementRow :: "ident \<Rightarrow> placement \<Rightarrow> roomStudentAssignment" where
  "placementRow roomAllocationId p =
     \<lparr>asg_roomAllocationId = roomAllocationId, asg_studentId = pl_studentId p,
      asg_row = pl_row p, asg_column = pl_column p, asg_benchPosition = pl_benchPosition p\<rparr>"

text \<open>
  The state of the solver when the handler reaches line 374, for a request that passed
  the checks before it.
\<close>

definition autoSolve :: "db \<Rightarrow> roomAllocation \<Rightarrow> ident list \<Rightarrow> student list \<Rightarrow> solver" where
  "autoSolve d room studentIds studs =
     (let existing = studentAssignments d (room_id room);
          positionMap = removeReassigned (setFrom (map asg_studentId existing))
                          (setFrom studentIds) (seedPositionMap d existing)
      in solve room positionMap studs)"

definition autoCommit ::
  "db \<Rightarrow> ident \<Rightarrow> ident list \<Rightarrow> solver \<Rightarrow> autoResponse \<times> storeWrite list \<times> db" where
  "autoCommit d roomAllocationId uniqueStudentIds st =
     (if sv_unassigned st \<noteq> [] then
        (AutoCouldNotAssign (length (sv_unassigned st)) (map displayName (sv_unassigned st))
           (sv_assignments st), [], d)
      else
        (let d1 = deleteMany d roomAllocationId uniqueStudentIds;
             new = map (placementRow roomAllocationId) (sv_assignments st)
         in if sv_assignments st \<noteq> [] then
              (case createMany d1 new of
                 None \<Rightarrow>
                   (AutoDuplicateAssignment,
                    [DeleteMany roomAllocationId uniqueStudentIds, CreateMany new], d1)
               | Some d2 \<Rightarrow>
                   (AutoAssigned (length (sv_assignments st)) (sv_assignments st),
                    [DeleteMany roomAllocationId uniqueStudentIds, CreateMany new], d2))
            else
              (AutoAssigned 0 [], [DeleteMany roomAllocationId uniqueStudentIds], d1)))"

text \<open>
  The handler up to line 372: the response of the first failed check, or the room
  allocation id, the distinct student ids and the state the solver ends in.
\<close>

definition autoPrepare ::
  "db \<Rightarrow> ident \<Rightarrow> autoRequest \<Rightarrow> autoResponse + (ident \<times> ident list \<times> solver)" where
  "autoPrepare d schoolId req =
     (case areq_roomAllocationId req of
        None \<Rightarrow> Inl AutoRequiredFields
      | Some roomAllocationId \<Rightarrow>
     (case areq_studentIds req of
        None \<Rightarrow> Inl AutoRequiredFields
      | Some studentIds \<Rightarrow>
     if roomAllocationId = [] \<or> studentIds = [] then Inl AutoRequiredFields
     else
     (case findFirstRoom d roomAllocationId schoolId of
        None \<Rightarrow> Inl AutoRoomNotFound
      | Some room \<Rightarrow>
     (let studs = findManyStudents d studentIds schoolId in
      if length studs \<noteq> length studentIds then Inl AutoSomeStudentsNotFound
      else if length (setFrom studentIds) \<noteq> length studentIds then Inl AutoDuplicateStudents
      else Inr (roomAllocationId, setFrom studentIds, autoSolve d room studentIds studs)))))"

definition autoAssign :: "db \<Rightarrow> ident \<Rightarrow> autoRequest \<Rightarrow> autoResponse \<times> storeWrite list \<times> db" where
  "autoAssign d schoolId req =
     (case autoPrepare d schoolId req of
        Inl resp \<Rightarrow> (resp, [], d)
      | Inr (roomAllocationId, uniqueStudentIds, st) \<Rightarrow>
          autoCommit d roomAllocationId uniqueStudentIds st)"

subsection \<open>The manual handler\<close>

text \<open>
  One element of the request's \<^verbatim>\<open>assignments\<close> array, with integer numbers in
  \<^verbatim>\<open>row\<close>, \<^verbatim>\<open>column\<close> and \<^verbatim>\<open>benchPosition\<close>; \<open>mt_benchPosition\<close> is \<open>None\<close> when
  the field is absent. The handler accepts other values too (the range test of line 366
  lets \<^verbatim>\<open>row: 1.5\<close> through, the keys of lines 430-440 are then \<^verbatim>\<open>1.5-1-1\<close> and its
  likes, and line 510 stores row 1); they are outside this record.
\<close>

record manualTuple =
  mt_studentId :: ident
  mt_row :: int
  mt_column :: int
  mt_benchPosition :: "int option"

record manualRequest =
  mreq_roomAllocationId :: "ident option"
  mreq_assignments :: "manualTuple list option"

text \<open>
  The responses of the handler, one constructor for each \<^verbatim>\<open>NextResponse.json\<close> of the
  source. The three constraint responses name the class of the student in their message;
  the model carries the class id in its place.
\<close>

datatype manualResponse =
    ManRequiredFields
  | ManRoomNotFound
  | ManAssignedMultipleTimes ident
  | ManInvalidPosition int int
  | ManInvalidBenchPosition int
  | ManPositionAlreadyAssigned int int int
  | ManSomeStudentsNotFound
  | ManAdjacentSameClass "ident option"
  | ManSameBenchSameClass "ident option"
  | ManSideBySideSameClass "ident option"
  | ManAssigned
  | ManDuplicateAssignment

text \<open>\<^verbatim>\<open>benchPosition || 1\<close>\<close>

definition benchPosOf :: "manualTuple \<Rightarrow> int" where
  "benchPosOf a = (case mt_benchPosition a of None \<Rightarrow> 1 | Some b \<Rightarrow> if b = 0 then 1 else b)"

text \<open>
  The first loop (lines 353-389), with the sets \<^verbatim>\<open>studentIds\<close> and \<^verbatim>\<open>positions\<close> as
  accumulators; it returns the first error response, or the student ids in input order
  (\<^verbatim>\<open>Array.from(studentIds)\<close>).
\<close>

fun validateAssignments ::
  "roomAllocation \<Rightarrow> ident list \<Rightarrow> key list \<Rightarrow> manualTuple list \<Rightarrow> manualResponse + ident list" where
  "validateAssignments room studentIds positions [] = Inr studentIds"
| "validateAssignments room studentIds positions (a # rest) =
     (if mt_studentId a \<in> set studentIds then Inl (ManAssignedMultipleTimes (mt_studentId a))
      else if mt_row a < 1 \<or> mt_row a > rows room \<or> mt_column a < 1 \<or> mt_column a > columns room
        then Inl (ManInvalidPosition (mt_row a) (mt_column a))
      else if benchPosOf a < 1 \<or> benchPosOf a > studentsPerBench room
        then Inl (ManInvalidBenchPosition (benchPosOf a))
      else if posKey (mt_row a) (mt_column a) (benchPosOf a) \<in> set positions
        then Inl (ManPositionAlreadyAssigned (mt_row a) (mt_column a) (benchPosOf a))
      else validateAssignments room (studentIds @ [mt_studentId a])
             (positions @ [posKey (mt_row a) (mt_column a) (benchPosOf a)]) rest)"

text \<open>
  The constraint test of one tuple (lines 432-489): the response of the first violated
  rule, or \<open>None\<close>. The handler has no test of the map at the key of the tuple itself.
\<close>

definition constraintViolation ::
  "roomAllocation \<Rightarrow> positionMap \<Rightarrow> int \<Rightarrow> int \<Rightarrow> int \<Rightarrow> ident option \<Rightarrow> manualResponse option" where
  "constraintViolation room pm row col benchPos studentClassId =
     (if studentsPerBench room = 1 then
        (if list_ex (\<lambda>adjKey. sameClassAt pm adjKey studentClassId) (adjacentPositions row col)
         then Some (ManAdjacentSameClass studentClassId) else None)
      else
        (let sameBenchPos = (if benchPos = 1 then 2 else 1) in
         if sameClassAt pm (posKey row col sameBenchPos) studentClassId
           then Some (ManSameBenchSameClass studentClassId)
         else if col > 1 \<and> checkSide pm studentClassId row (col - 1)
           then Some (ManSideBySideSameClass studentClassId)
         else if col < columns room \<and> checkSide pm studentClassId row (col + 1)
           then Some (ManSideBySideSameClass studentClassId)
         else None))"

text \<open>\<^verbatim>\<open>new Map(students.map(s => [s.id, s]))\<close>: a later row replaces an earlier one.\<close>

definition studentMapOf :: "student list \<Rightarrow> ident \<Rightarrow> student option" where
  "studentMapOf studs = map_of (rev (map (\<lambda>s. (student_id s, s)) studs))"

text \<open>
  The second loop (lines 424-495): a tuple whose student is not in the map is skipped, a
  violation ends the loop with its response, and an accepted tuple is set in the map.
\<close>

fun checkAssignments ::
  "roomAllocation \<Rightarrow> (ident \<Rightarrow> student option) \<Rightarrow> positionMap \<Rightarrow> manualTuple list
     \<Rightarrow> manualResponse + positionMap" where
  "checkAssignments room studentMap pm [] = Inr pm"
| "checkAssignments room studentMap pm (a # rest) =
     (case studentMap (mt_studentId a) of
        None \<Rightarrow> checkAssignments room studentMap pm rest
      | Some s \<Rightarrow>
          (case constraintViolation room pm (mt_row a) (mt_column a) (benchPosOf a)
                  (student_classId s) of
             Some resp \<Rightarrow> Inl resp
           | None \<Rightarrow>
               checkAssignments room studentMap
                 (pm(posKey (mt_row a) (mt_column a) (benchPosOf a) \<mapsto>
                     \<lparr>occ_studentId = mt_studentId a, occ_classId = student_classId s\<rparr>))
                 rest))"

text \<open>
  The row written for a tuple (lines 506-514): \<^verbatim>\<open>parseInt(row)\<close> and
  \<^verbatim>\<open>parseInt(column)\<close>, which on the integers of \<open>manualTuple\<close> are the integers
  themselves, and the bench position is again \<^verbatim>\<open>benchPosition || 1\<close>.
\<close>

definition manualRow :: "ident \<Rightarrow> manualTuple \<Rightarrow> roomStudentAssignment" where
  "manualRow roomAllocationId a =
     \<lparr>asg_roomAllocationId = roomAllocationId, asg_studentId = mt_studentId a,
      asg_row = mt_row a, asg_column = mt_column a, asg_benchPosition = benchPosOf a\<rparr>"

definition manualCommit ::
  "db \<Rightarrow> ident \<Rightarrow> ident list \<Rightarrow> manualTuple list \<Rightarrow> manualResponse \<times> storeWrite list \<times> db" where
  "manualCommit d roomAllocationId studentIdsArray assignments =
     (let d1 = deleteMany d roomAllocationId studentIdsArray;
          new = map (manualRow roomAllocationId) assignments
      in case createMany d1 new of
           None \<Rightarrow>
             (ManDuplicateAssignment,
              [DeleteMany roomAllocationId studentIdsArray, CreateMany new], d1)
         | Some d2 \<Rightarrow>
             (ManAssigned, [DeleteMany roomAllocationId studentIdsArray, CreateMany new], d2))"

text \<open>
  The handler up to line 495: the response of the first failed check, or the room
  allocation id and the student ids, once every tuple has been accepted.
\<close>

definition manualPrepare ::
  "db \<Rightarrow> ident \<Rightarrow> manualRequest \<Rightarrow> manualResponse + (ident \<times> ident list \<times> manualTuple list)" where
  "manualPrepare d schoolId req =
     (case mreq_roomAllocationId req of
        None \<Rightarrow> Inl ManRequiredFields
      | Some roomAllocationId \<Rightarrow>
     (case mreq_assignments req of
        None \<Rightarrow> Inl ManRequiredFields
      | Some assignments \<Rightarrow>
     if roomAllocationId = [] then Inl ManRequiredFields
     else
     (case findFirstRoom d roomAllocationId schoolId of
        None \<Rightarrow> Inl ManRoomNotFound
      | Some room \<Rightarrow>
     (case validateAssignments room [] [] assignments of
        Inl resp \<Rightarrow> Inl resp
      | Inr studentIdsArray \<Rightarrow>
     (let studs = findManyStudents d studentIdsArray schoolId in
      if length studs \<noteq> length studentIdsArray then Inl ManSomeStudentsNotFound
      else
        (case checkAssignments room (studentMapOf studs)
                (seedPositionMap d (studentAssignments d roomAllocationId)) assignments of
           Inl resp \<Rightarrow> Inl resp
         | Inr pm \<Rightarrow> Inr (roomAllocationId, studentIdsArray, assignments)))))))"

definition manualAssign ::
  "db \<Rightarrow> ident \<Rightarrow> manualRequest \<Rightarrow> manualResponse \<times> storeWrite list \<times> db" where
  "manualAssign d schoolId req =
     (case manualPrepare d schoolId req of
        Inl resp \<Rightarrow> (resp, [], d)
      | Inr (roomAllocationId, studentIdsArray, assignments) \<Rightarrow>
          manualCommit d roomAllocationId studentIdsArray assignments)"

subsection \<open>The creation of a room allocation\<close>

text \<open>
  The field \<^verbatim>\<open>studentsPerBench\<close> of the request is compared with \<^verbatim>\<open>=== 2\<close>, so its
  JSON value is kept as it is: absent, \<^verbatim>\<open>null\<close>, a boolean, an integer number or a
  string. (A number that is not an integer differs from 2 as every other value here
  does.) The fields \<^verbatim>\<open>rows\<close> and \<^verbatim>\<open>columns\<close> are integer numbers or absent, the
  room name a string (the list of its UTF-16 code units) or absent, the class ids a list
  of strings or absent. The handler tests \<^verbatim>\<open>rows\<close> and \<^verbatim>\<open>columns\<close> as they were sent (lines
  49-66) and stores \<^verbatim>\<open>parseInt\<close> of them (lines 94-95); for the integers of this
  record the stored value is the tested one. A request with a string in one of these
  fields is outside this record: there the two readings differ, and the handler stores
  300 rows for \<^verbatim>\<open>rows: '300abc'\<close>, whose tests all pass.
\<close>

datatype json = JAbsent | JNull | JBool bool | JNum int | JStr string








section \<open>Derived notions\<close>

text \<open>
  The keys that the constraint test of either handler reads besides the key of the seat
  itself: the array \<^verbatim>\<open>adjacentPositions\<close> when the room has one student per bench,
  otherwise the other position of the same bench and, under the guards
  \<^verbatim>\<open>column > 1\<close> and \<^verbatim>\<open>column < roomAllocation.columns\<close>, both positions of the
  bench to the left and of the bench to the right. The lemmas \<open>isPositionAvailable_iff\<close>
  and \<open>constraintViolation_iff\<close> show that the two tests read exactly these keys.
\<close>

definition adjacentKeys :: "roomAllocation \<Rightarrow> int \<Rightarrow> int \<Rightarrow> int \<Rightarrow> key list" where
  "adjacentKeys room row col benchPosition =
     (if studentsPerBench room = 1 then adjacentPositions row col
      else [posKey row col (if benchPosition = 1 then 2 else 1)]
           @ (if col > 1 then [posKey row (col - 1) 1, posKey row (col - 1) 2] else [])
           @ (if col < columns room then [posKey row (col + 1) 1, posKey row (col + 1) 2] else []))"

text \<open>
  The seats of the room: the range of the three loops of the solver, which on integers
  is also the negation of the two range tests of the manual handler (lines 366 and 374).
\<close>

definition isInRange :: "roomAllocation \<Rightarrow> int \<Rightarrow> int \<Rightarrow> int \<Rightarrow> bool" where
  "isInRange room row col benchPosition =
     (1 \<le> row \<and> row \<le> rows room \<and> 1 \<le> col \<and> col \<le> columns room \<and>
      1 \<le> benchPosition \<and> benchPosition \<le> studentsPerBench room)"

text \<open>The bench sizes of the specification, on a stored room.\<close>

definition benchSizeOk :: "roomAllocation \<Rightarrow> bool" where
  "benchSizeOk room = (studentsPerBench room = 1 \<or> studentsPerBench room = 2)"

text \<open>
  The safety invariant of the specification, on the rows of one room allocation. The
  adjacency set of a seat follows the words of the specification (section 4.1): with one
  student per bench the seats to the left, right, front and back at bench position 1;
  otherwise the other position of the same bench and both positions of the benches in
  the columns to the left and to the right. Two rows conflict when the seat of the second
  is adjacent to the seat of the first and their students have equal class ids that are
  not null.
\<close>

definition seatKey :: "roomStudentAssignment \<Rightarrow> key" where
  "seatKey a = posKey (asg_row a) (asg_column a) (asg_benchPosition a)"

definition adjacentCoordinates :: "int \<Rightarrow> key \<Rightarrow> key list" where
  "adjacentCoordinates perBench k =
     (case k of (row, col, b) \<Rightarrow>
        if perBench = 1
        then [(row, col - 1, 1), (row, col + 1, 1), (row - 1, col, 1), (row + 1, col, 1)]
        else [(row, col, if b = 1 then 2 else 1),
              (row, col - 1, 1), (row, col - 1, 2), (row, col + 1, 1), (row, col + 1, 2)])"

definition conflicting ::
  "db \<Rightarrow> int \<Rightarrow> roomStudentAssignment \<Rightarrow> roomStudentAssignment \<Rightarrow> bool" where
  "conflicting d perBench a b =
     (seatKey b \<in> set (adjacentCoordinates perBench (seatKey a)) \<and>
      classIdOf d (asg_studentId a) = classIdOf d (asg_studentId b) \<and>
      classIdOf d (asg_studentId a) \<noteq> None)"

definition safeRows :: "db \<Rightarrow> int \<Rightarrow> roomStudentAssignment list \<Rightarrow> bool" where
  "safeRows d perBench rs =
     (distinct (map seatKey rs) \<and>
      list_all (\<lambda>a. list_all (\<lambda>b. \<not> conflicting d perBench a b) rs) rs)"

definition seatingSafe :: "db \<Rightarrow> roomAllocation \<Rightarrow> bool" where
  "seatingSafe d room =
     safeRows d (studentsPerBench room) (studentAssignments d (room_id room))"

definition rowInRange :: "roomAllocation \<Rightarrow> roomStudentAssignment \<Rightarrow> bool" where
  "rowInRange room a = isInRange room (asg_row a) (asg_column a) (asg_benchPosition a)"

definition seatsInRange :: "db \<Rightarrow> roomAllocation \<Rightarrow> bool" where
  "seatsInRange d room = list_all (rowInRange room) (studentAssignments d (room_id room))"

text \<open>
  The conditions on the store under which the invariant is preserved: student ids and
  room allocation ids are primary keys, no class id is the empty string, and every room
  has one or two students per bench (as the creation handler stores them).
\<close>

definition storeWellFormed :: "db \<Rightarrow> bool" where
  "storeWellFormed d =
     (distinct (map student_id (students d)) \<and>
      distinct (map room_id (roomAllocations d)) \<and>
      list_all (\<lambda>s. student_classId s \<noteq> Some []) (students d) \<and>
      list_all benchSizeOk (roomAllocations d))"

definition storeSafe :: "db \<Rightarrow> bool" where
  "storeSafe d =
     list_all (\<lambda>room. seatsInRange d room \<and> seatingSafe d room) (roomAllocations d)"

text \<open>The occupant that the position map holds for a row of the store.\<close>

definition occupantOf :: "db \<Rightarrow> roomStudentAssignment \<Rightarrow> occupant" where
  "occupantOf d a =
     \<lparr>occ_studentId = asg_studentId a, occ_classId = classIdOf d (asg_studentId a)\<rparr>"

definition covers :: "db \<Rightarrow> positionMap \<Rightarrow> roomStudentAssignment list \<Rightarrow> bool" where
  "covers d pm rs = list_all (\<lambda>a. pm (seatKey a) = Some (occupantOf d a)) rs"

text \<open>
  The loop invariant of the solver: the rows kept from the store followed by the rows
  placed so far are safe and in range, and the position map holds each of them.
\<close>

definition rowsInvariant ::
  "db \<Rightarrow> roomAllocation \<Rightarrow> positionMap \<Rightarrow> roomStudentAssignment list \<Rightarrow> bool" where
  "rowsInvariant d room pm rs =
     (safeRows d (studentsPerBench room) rs \<and> list_all (rowInRange room) rs \<and> covers d pm rs)"

section \<open>Concrete stores and requests\<close>

text \<open>
  The scenarios below use one school, \<open>''school''\<close>, and one room allocation, \<open>''room''\<close>.
\<close>

definition mkStudent :: "ident \<Rightarrow> ident \<Rightarrow> student" where
  "mkStudent i c =
     \<lparr>student_id = i, student_schoolId = ''school'', student_classId = Some c,
      student_userName = None\<rparr>"

definition mkRoom :: "int \<Rightarrow> int \<Rightarrow> int \<Rightarrow> roomAllocation" where
  "mkRoom r c b =
     \<lparr>room_id = ''room'', room_schoolId = ''school'', room_name = map of_char ''Hall'',
      rows = r, columns = c, studentsPerBench = b\<rparr>"

definition mkSeat :: "ident \<Rightarrow> int \<Rightarrow> int \<Rightarrow> int \<Rightarrow> roomStudentAssignment" where
  "mkSeat i r c b =
     \<lparr>asg_roomAllocationId = ''room'', asg_studentId = i, asg_row = r, asg_column = c,
      asg_benchPosition = b\<rparr>"

definition mkPlacement :: "ident \<Rightarrow> int \<Rightarrow> int \<Rightarrow> int \<Rightarrow> placement" where
  "mkPlacement i r c b = \<lparr>pl_studentId = i, pl_row = r, pl_column = c, pl_benchPosition = b\<rparr>"

definition mkTuple :: "ident \<Rightarrow> int \<Rightarrow> int \<Rightarrow> int \<Rightarrow> manualTuple" where
  "mkTuple i r c b =
     \<lparr>mt_studentId = i, mt_row = r, mt_column = c, mt_benchPosition = Some b\<rparr>"

definition mkDb ::
  "roomAllocation \<Rightarrow> student list \<Rightarrow> roomStudentAssignment list \<Rightarrow> bool \<Rightarrow> db" where
  "mkDb room studs asgs u =
     \<lparr>roomAllocations = [room], students = studs, classes = [], classRooms = [],
      roomStudentAssignments = asgs, uniqueSeatIndex = u\<rparr>"

definition autoReq :: "ident list \<Rightarrow> autoRequest" where
  "autoReq ids = \<lparr>areq_roomAllocationId = Some ''room'', areq_studentIds = Some ids\<rparr>"

definition manualReq :: "manualTuple list \<Rightarrow> manualRequest" where
  "manualReq ts = \<lparr>mreq_roomAllocationId = Some ''room'', mreq_assignments = Some ts\<rparr>"

text \<open>Scenario A of the specification: three students of the classes X, X and Y.\<close>

definition studentsA :: "student list" where
  "studentsA = [mkStudent ''S1'' ''X'', mkStudent ''S2'' ''X'', mkStudent ''S3'' ''Y'']"

definition placementsA :: "placement list" where
  "placementsA = [mkPlacement ''S1'' 1 1 1, mkPlacement ''S2'' 1 3 1, mkPlacement ''S3'' 1 2 1]"

text \<open>A room of one row and two columns, one student per bench, and two students of one class.\<close>

definition dbFull :: "bool \<Rightarrow> db" where
  "dbFull u = mkDb (mkRoom 1 2 1) [mkStudent ''S1'' ''X'', mkStudent ''S2'' ''X''] [] u"

text \<open>The same room with one student, seated at (1,1,1).\<close>

definition dbMove :: "bool \<Rightarrow> db" where
  "dbMove u = mkDb (mkRoom 1 2 1) [mkStudent ''S1'' ''X''] [mkSeat ''S1'' 1 1 1] u"

text \<open>
  A room of one row and three columns, one student per bench: S2 (class Y) sits at
  (1,1,1) and S1 (class X) at (1,3,1).
\<close>

definition dbTaken :: "bool \<Rightarrow> db" where
  "dbTaken u =
     mkDb (mkRoom 1 3 1) [mkStudent ''S1'' ''X'', mkStudent ''S2'' ''Y'']
       [mkSeat ''S2'' 1 1 1, mkSeat ''S1'' 1 3 1] u"






text \<open>An occupant of class X, for the statements about single seats.\<close>

definition occX :: "ident \<Rightarrow> occupant" where
  "occX i = \<lparr>occ_studentId = i, occ_classId = Some ''X''\<rparr>"

text \<open>
  A room of one row and three columns, one student per bench: S2 (class X) sits at
  (1,1,1); S1 (class Y) and S3 (class X) have no seat. The batch puts S1 on the seat of S2
  and S3 next to it.
\<close>

definition dbHidden :: "bool \<Rightarrow> db" where
  "dbHidden u =
     mkDb (mkRoom 1 3 1) [mkStudent ''S1'' ''Y'', mkStudent ''S2'' ''X'', mkStudent ''S3'' ''X'']
       [mkSeat ''S2'' 1 1 1] u"

definition reqHidden :: manualRequest where
  "reqHidden = manualReq [mkTuple ''S1'' 1 1 1, mkTuple ''S3'' 1 2 1]"

text \<open>
  Two stores for scenario A, with no assignment yet: one whose table of students is in
  the order S1, S2, S3 and one whose table is in the order S3, S1, S2.
\<close>

definition dbA :: "bool \<Rightarrow> db" where
  "dbA u = mkDb (mkRoom 1 3 1) studentsA [] u"

definition dbA_reordered :: "bool \<Rightarrow> db" where
  "dbA_reordered u =
     mkDb (mkRoom 1 3 1) [mkStudent ''S3'' ''Y'', mkStudent ''S1'' ''X'', mkStudent ''S2'' ''X'']
       [] u"

definition rowsA :: "roomStudentAssignment list" where
  "rowsA = [mkSeat ''S1'' 1 1 1, mkSeat ''S2'' 1 3 1, mkSeat ''S3'' 1 2 1]"

section \<open>Properties\<close>

subsection \<open>Helper lemmas\<close>

lemma isPositionAvailable_iff:
  "isPositionAvailable room pm row col b cls =
     (pm (posKey row col b) = None \<and> \<not> list_ex (\<lambda>k. sameClassAt pm k cls) (adjacentKeys room row col b))"
  by (auto simp: isPositionAvailable_def adjacentKeys_def checkSide_def Let_def)

lemma constraintViolation_iff:
  "(constraintViolation room pm row col b cls = None) =
     (\<not> list_ex (\<lambda>k. sameClassAt pm k cls) (adjacentKeys room row col b))"
  by (auto simp: constraintViolation_def adjacentKeys_def checkSide_def Let_def)

lemma adjacentKeys_sym:
  assumes "studentsPerBench room = 1 \<or> studentsPerBench room = 2"
    and "isInRange room r c b" and "isInRange room r' c' b'"
    and "posKey r' c' b' \<in> set (adjacentKeys room r c b)"
  shows "posKey r c b \<in> set (adjacentKeys room r' c' b')"
  using assms
  by (auto simp: adjacentKeys_def adjacentPositions_def isInRange_def posKey_def split: if_splits)

lemma sameClassAt_cong: "pm k = pm' k \<Longrightarrow> sameClassAt pm k cls = sameClassAt pm' k cls"
  by (simp add: sameClassAt_def)

lemma list_ex_sameClassAt_cong:
  "(\<And>k. k \<in> set ks \<Longrightarrow> pm k = pm' k) \<Longrightarrow>
   list_ex (\<lambda>k. sameClassAt pm k cls) ks = list_ex (\<lambda>k. sameClassAt pm' k cls) ks"
  by (induction ks) (auto simp: sameClassAt_def)

lemma available_cong:
  assumes "pm (posKey r c b) = pm' (posKey r c b)"
    and "\<And>k. k \<in> set (adjacentKeys room r c b) \<Longrightarrow> pm k = pm' k"
  shows "isPositionAvailable room pm r c b cls = isPositionAvailable room pm' r c b cls"
  using assms list_ex_sameClassAt_cong[of "adjacentKeys room r c b" pm pm' cls]
  by (simp add: isPositionAvailable_iff)

lemma setFrom_aux:
  "distinct acc \<Longrightarrow> distinct (foldl (\<lambda>acc x. if x \<in> set acc then acc else acc @ [x]) acc xs)
     \<and> set (foldl (\<lambda>acc x. if x \<in> set acc then acc else acc @ [x]) acc xs) = set acc \<union> set xs"
  by (induction xs arbitrary: acc) auto

lemma distinct_setFrom: "distinct (setFrom xs)"
  using setFrom_aux[of "[]" xs] by (simp add: setFrom_def)

lemma set_setFrom: "set (setFrom xs) = set xs"
  using setFrom_aux[of "[]" xs] by (simp add: setFrom_def)

lemma length_setFrom: "length (setFrom xs) = card (set xs)"
  using distinct_card[OF distinct_setFrom, of xs] by (simp add: set_setFrom)

lemma length_setFrom_eq: "(length (setFrom xs) = length xs) = distinct xs"
  by (metis length_setFrom card_distinct distinct_card)

lemma findMany_length_le:
  assumes "distinct (map student_id (students d))"
  shows "length (findManyStudents d ids schoolId) \<le> card (set ids)"
proof -
  let ?r = "findManyStudents d ids schoolId"
  have "distinct (map student_id ?r)"
    using assms by (simp add: findManyStudents_def distinct_map_filter)
  then have "length ?r = card (set (map student_id ?r))"
    by (metis distinct_card length_map)
  also have "\<dots> \<le> card (set ids)"
    by (rule card_mono) (auto simp: findManyStudents_def)
  finally show ?thesis .
qed

lemma constraintViolation_cong:
  assumes "\<And>k. k \<in> set (adjacentKeys room r c b) \<Longrightarrow> pm k = pm' k"
  shows "constraintViolation room pm r c b cls = constraintViolation room pm' r c b cls"
proof (cases "studentsPerBench room = 1")
  case True
  then have "list_ex (\<lambda>k. sameClassAt pm k cls) (adjacentPositions r c)
           = list_ex (\<lambda>k. sameClassAt pm' k cls) (adjacentPositions r c)"
    using assms by (intro list_ex_sameClassAt_cong) (simp add: adjacentKeys_def)
  with True show ?thesis by (simp add: constraintViolation_def)
next
  case False
  have e0: "sameClassAt pm (posKey r c (if b = 1 then 2 else 1)) cls
          = sameClassAt pm' (posKey r c (if b = 1 then 2 else 1)) cls"
    using False by (intro sameClassAt_cong assms) (simp add: adjacentKeys_def)
  have e1: "checkSide pm cls r (c - 1) = checkSide pm' cls r (c - 1)" if "c > 1"
    using False that assms[of "posKey r (c - 1) 1"] assms[of "posKey r (c - 1) 2"]
    by (simp add: checkSide_def adjacentKeys_def sameClassAt_def)
  have e2: "checkSide pm cls r (c + 1) = checkSide pm' cls r (c + 1)" if "c < columns room"
    using False that assms[of "posKey r (c + 1) 1"] assms[of "posKey r (c + 1) 2"]
    by (simp add: checkSide_def adjacentKeys_def sameClassAt_def)
  show ?thesis using False e0 e1 e2
    by (auto simp: constraintViolation_def Let_def)
qed

lemma list_ex_single:
  "truthy cls \<Longrightarrow> list_ex (\<lambda>k. sameClassAt [k0 \<mapsto> \<lparr>occ_studentId = s, occ_classId = cls\<rparr>] k cls) ks = (k0 \<in> set ks)"
  by (induction ks) (auto simp: sameClassAt_def)

subsection \<open>Scenario A\<close>

lemma solve_scenario_A:
  "sv_assignments (solve (mkRoom 1 3 1) Map.empty studentsA) = placementsA"
  "sv_unassigned (solve (mkRoom 1 3 1) Map.empty studentsA) = []"
  by code_simp+

lemma autoAssign_scenario_A:
  assumes "distinct ids" and "set ids = {''S1'', ''S2'', ''S3''}"
  shows "fst (autoAssign (dbA u) ''school'' (autoReq ids)) = AutoAssigned 3 placementsA"
    and "roomStudentAssignments (snd (snd (autoAssign (dbA u) ''school'' (autoReq ids)))) = rowsA"
proof -
  let ?room = "mkRoom 1 3 1"
  let ?st = "solve ?room Map.empty studentsA"
  have len: "length ids = 3"
    using distinct_card[OF assms(1)] assms(2) by simp
  then have ne: "ids \<noteq> []" by auto
  have room: "findFirstRoom (dbA u) ''room'' ''school'' = Some ?room"
    by (simp add: findFirstRoom_def dbA_def mkDb_def mkRoom_def)
  have studs: "findManyStudents (dbA u) ids ''school'' = studentsA"
    by (simp add: findManyStudents_def dbA_def mkDb_def studentsA_def mkStudent_def assms(2))
  have uniq: "length (setFrom ids) = length ids"
    using assms(1) by (simp add: length_setFrom_eq)
  have solve: "autoSolve (dbA u) ?room ids studentsA = ?st"
    by (simp add: autoSolve_def studentAssignments_def dbA_def mkDb_def seedPositionMap_def
                  removeReassigned_def setFrom_def)
  have lenA: "length studentsA = 3" by (simp add: studentsA_def)
  have prep: "autoPrepare (dbA u) ''school'' (autoReq ids) = Inr (''room'', setFrom ids, ?st)"
    using ne len uniq by (simp add: autoPrepare_def autoReq_def room studs solve lenA)
  have del: "deleteMany (dbA u) ''room'' (setFrom ids) = dbA u"
    by (simp add: deleteMany_def dbA_def mkDb_def)
  have "distinct (map seatOf (map (placementRow ''room'') placementsA))" by code_simp
  then have cm: "createMany (dbA u) (map (placementRow ''room'') placementsA) =
             Some ((dbA u)\<lparr>roomStudentAssignments := map (placementRow ''room'') placementsA\<rparr>)"
    by (simp add: createMany_def dbA_def mkDb_def)
  have rows: "map (placementRow ''room'') placementsA = rowsA" by code_simp
  note cm = cm[unfolded rows]
  have "length placementsA = 3" "placementsA \<noteq> []" by (simp_all add: placementsA_def)
  then have res: "autoAssign (dbA u) ''school'' (autoReq ids) =
      (AutoAssigned 3 placementsA,
       [DeleteMany ''room'' (setFrom ids), CreateMany rowsA],
       (dbA u)\<lparr>roomStudentAssignments := rowsA\<rparr>)"
    by (simp add: autoAssign_def prep autoCommit_def solve_scenario_A del cm rows Let_def)
  show "fst (autoAssign (dbA u) ''school'' (autoReq ids)) = AutoAssigned 3 placementsA"
    by (simp add: res)
  show "roomStudentAssignments (snd (snd (autoAssign (dbA u) ''school'' (autoReq ids)))) = rowsA"
    by (simp add: res)
qed

text \<open>
  Claim C5 as stated fails: the handler does not read the order of the ids in the
  request. With the ids S1, S2, S3 in this order and a store that returns the students
  in the order S3, S1, S2, the handler seats S3 at (1,1,1) and S1 at (1,2,1), cannot seat
  S2 and answers with the failure response, whether the store has the unique seat index
  or not.
\<close>

theorem scenario_A_request_order_not_used:
  "autoAssign (dbA_reordered True) ''school'' (autoReq [''S1'', ''S2'', ''S3'']) =
     (AutoCouldNotAssign 1 [''S2''] [mkPlacement ''S3'' 1 1 1, mkPlacement ''S1'' 1 2 1], [],
      dbA_reordered True)
   \<and> autoAssign (dbA_reordered False) ''school'' (autoReq [''S1'', ''S2'', ''S3'']) =
     (AutoCouldNotAssign 1 [''S2''] [mkPlacement ''S3'' 1 1 1, mkPlacement ''S1'' 1 2 1], [],
      dbA_reordered False)"
  by code_simp

text \<open>
  Claim C5, amended. On a grid of one row and three columns with one student per bench and
  no existing assignment, the solver places S1 (class X), S2 (class X) and S3 (class Y),
  taken in this order, at (1,1,1), (1,3,1) and (1,2,1) and leaves nobody unassigned. The
  handler takes the students in the order in which the store returns them: on a store
  that returns them in the order S1, S2, S3 it answers with exactly these placements and
  writes them as the rows of the room, for every order of the three ids in the request
  and whether the store has the unique seat index or not.
\<close>

theorem scenario_A_store_order:
  "sv_assignments (solve (mkRoom 1 3 1) Map.empty studentsA) = placementsA
   \<and> sv_unassigned (solve (mkRoom 1 3 1) Map.empty studentsA) = []
   \<and> (distinct ids \<and> set ids = {''S1'', ''S2'', ''S3''} \<longrightarrow>
        fst (autoAssign (dbA u) ''school'' (autoReq ids)) = AutoAssigned 3 placementsA \<and>
        roomStudentAssignments (snd (snd (autoAssign (dbA u) ''school'' (autoReq ids)))) = rowsA)"
proof (intro conjI impI)
  show "sv_assignments (solve (mkRoom 1 3 1) Map.empty studentsA) = placementsA"
    by (rule solve_scenario_A(1))
  show "sv_unassigned (solve (mkRoom 1 3 1) Map.empty studentsA) = []"
    by (rule solve_scenario_A(2))
next
  assume "distinct ids \<and> set ids = {''S1'', ''S2'', ''S3''}"
  then show "fst (autoAssign (dbA u) ''school'' (autoReq ids)) = AutoAssigned 3 placementsA"
    using autoAssign_scenario_A(1)[of ids u] by simp
next
  assume "distinct ids \<and> set ids = {''S1'', ''S2'', ''S3''}"
  then show "roomStudentAssignments (snd (snd (autoAssign (dbA u) ''school'' (autoReq ids)))) = rowsA"
    using autoAssign_scenario_A(2)[of ids u] by simp
qed

theorem scenario_A_store_order_witness:
  "fst (autoAssign (dbA True) ''school'' (autoReq [''S3'', ''S2'', ''S1''])) =
     AutoAssigned 3 placementsA
   \<and> roomStudentAssignments
        (snd (snd (autoAssign (dbA True) ''school'' (autoReq [''S3'', ''S2'', ''S1''])))) = rowsA"
proof -
  have h: "distinct [''S3'', ''S2'', ''S1''] \<and> set [''S3'', ''S2'', ''S1''] = {''S1'', ''S2'', ''S3''}"
    by auto
  from scenario_A_store_order[of "[''S3'', ''S2'', ''S1'']" True]
  have "distinct [''S3'', ''S2'', ''S1''] \<and> set [''S3'', ''S2'', ''S1''] = {''S1'', ''S2'', ''S3''} \<longrightarrow>
        fst (autoAssign (dbA True) ''school'' (autoReq [''S3'', ''S2'', ''S1''])) =
          AutoAssigned 3 placementsA \<and>
        roomStudentAssignments
          (snd (snd (autoAssign (dbA True) ''school'' (autoReq [''S3'', ''S2'', ''S1''])))) = rowsA"
    by (elim conjE)
  then show ?thesis using h by (rule mp)
qed

subsection \<open>Failure of the automatic assignment\<close>

lemma auto_could_not_assign_no_write:
  assumes "fst (autoAssign d schoolId req) = AutoCouldNotAssign n names partial"
  shows "snd (autoAssign d schoolId req) = ([], d)"
proof (cases "autoPrepare d schoolId req")
  case (Inl resp)
  then show ?thesis by (simp add: autoAssign_def)
next
  case (Inr t)
  obtain rid ids st where t: "t = (rid, ids, st)" by (cases t) auto
  show ?thesis
  proof (cases "sv_unassigned st = []")
    case True
    with Inr t assms show ?thesis
      by (simp add: autoAssign_def autoCommit_def Let_def split: option.splits if_splits)
  next
    case False
    with Inr t show ?thesis by (simp add: autoAssign_def autoCommit_def)
  qed
qed

text \<open>
  Claim C4. When a request has passed the checks of the automatic handler and the solver
  ends with a non-empty list of unassigned students, the handler issues no write, leaves
  the store as it was, and answers with the number of unassigned students, their names
  (or ids) and the placements the solver computed. Conversely, whenever the handler gives
  this answer, it has issued no write and the store is unchanged.
\<close>

theorem auto_failure_writes_nothing:
  "(autoPrepare d schoolId req = Inr (roomAllocationId, uniqueStudentIds, st) \<and>
      sv_unassigned st \<noteq> [] \<longrightarrow>
      autoAssign d schoolId req =
        (AutoCouldNotAssign (length (sv_unassigned st)) (map displayName (sv_unassigned st))
           (sv_assignments st), [], d))
   \<and> (fst (autoAssign d' schoolId' req') = AutoCouldNotAssign n names partial \<longrightarrow>
        snd (autoAssign d' schoolId' req') = ([], d'))"
proof (intro conjI impI)
  assume "autoPrepare d schoolId req = Inr (roomAllocationId, uniqueStudentIds, st) \<and>
      sv_unassigned st \<noteq> []"
  then show "autoAssign d schoolId req =
        (AutoCouldNotAssign (length (sv_unassigned st)) (map displayName (sv_unassigned st))
           (sv_assignments st), [], d)"
    by (simp add: autoAssign_def autoCommit_def)
next
  assume "fst (autoAssign d' schoolId' req') = AutoCouldNotAssign n names partial"
  then show "snd (autoAssign d' schoolId' req') = ([], d')"
    by (rule auto_could_not_assign_no_write)
qed

theorem auto_failure_writes_nothing_witness:
  "autoAssign (dbFull True) ''school'' (autoReq [''S1'', ''S2'']) =
     (AutoCouldNotAssign 1 [''S2''] [mkPlacement ''S1'' 1 1 1], [], dbFull True)"
proof -
  let ?d = "dbFull True"
  let ?st = "autoSolve ?d (mkRoom 1 2 1) [''S1'', ''S2''] [mkStudent ''S1'' ''X'', mkStudent ''S2'' ''X'']"
  have room: "findFirstRoom ?d ''room'' ''school'' = Some (mkRoom 1 2 1)"
    by (simp add: findFirstRoom_def dbFull_def mkDb_def mkRoom_def)
  have studs: "findManyStudents ?d [''S1'', ''S2''] ''school'' = [mkStudent ''S1'' ''X'', mkStudent ''S2'' ''X'']"
    by (simp add: findManyStudents_def dbFull_def mkDb_def mkStudent_def)
  have uniq: "setFrom [''S1'', ''S2''] = [''S1'', ''S2'']"
    by (simp add: setFrom_def)
  have prep: "autoPrepare ?d ''school'' (autoReq [''S1'', ''S2'']) = Inr (''room'', [''S1'', ''S2''], ?st)"
    by (simp add: autoPrepare_def autoReq_def room studs uniq)
  have un: "sv_unassigned ?st = [mkStudent ''S2'' ''X'']" by code_simp
  have asg: "sv_assignments ?st = [mkPlacement ''S1'' 1 1 1]" by code_simp
  have nm: "displayName (mkStudent ''S2'' ''X'') = ''S2''" by code_simp
  have res: "autoAssign ?d ''school'' (autoReq [''S1'', ''S2'']) =
      (AutoCouldNotAssign (length (sv_unassigned ?st)) (map displayName (sv_unassigned ?st))
           (sv_assignments ?st), [], ?d)"
    using auto_failure_writes_nothing[of ?d "''school''" "autoReq [''S1'', ''S2'']" "''room''"
        "[''S1'', ''S2'']" ?st ?d "''school''" "autoReq [''S1'', ''S2'']" 1 "[''S2'']" "[mkPlacement ''S1'' 1 1 1]"]
      prep un by simp
  show ?thesis unfolding res by (simp add: un asg nm)
qed

subsection \<open>The capacity ceiling and the bench size\<close>









subsection \<open>The adjacency rule\<close>

text \<open>
  Claim C6. In a room with two students per bench, an entry of the position map at the
  row before or the row after, in the same column and at any bench position, changes
  neither the availability test of the automatic handler nor the constraint test of the
  manual handler, for every seat and every class. Both tests are determined by the
  entries at the other position of the same bench and at the two positions of the
  columns to the left and to the right (the automatic one also by the entry at the seat
  itself).
\<close>

theorem two_per_bench_front_back_free:
  assumes "studentsPerBench room = 2"
  shows "isPositionAvailable room (pm(posKey (row - 1) col b' \<mapsto> occ)) row col b cls
           = isPositionAvailable room pm row col b cls
    \<and> isPositionAvailable room (pm(posKey (row + 1) col b' \<mapsto> occ)) row col b cls
           = isPositionAvailable room pm row col b cls
    \<and> constraintViolation room (pm(posKey (row - 1) col b' \<mapsto> occ)) row col b cls
           = constraintViolation room pm row col b cls
    \<and> constraintViolation room (pm(posKey (row + 1) col b' \<mapsto> occ)) row col b cls
           = constraintViolation room pm row col b cls
    \<and> (pm (posKey row col (if b = 1 then 2 else 1)) = pm' (posKey row col (if b = 1 then 2 else 1)) \<and>
       pm (posKey row (col - 1) 1) = pm' (posKey row (col - 1) 1) \<and>
       pm (posKey row (col - 1) 2) = pm' (posKey row (col - 1) 2) \<and>
       pm (posKey row (col + 1) 1) = pm' (posKey row (col + 1) 1) \<and>
       pm (posKey row (col + 1) 2) = pm' (posKey row (col + 1) 2)
       \<longrightarrow> constraintViolation room pm row col b cls = constraintViolation room pm' row col b cls
          \<and> (pm (posKey row col b) = pm' (posKey row col b) \<longrightarrow>
               isPositionAvailable room pm row col b cls = isPositionAvailable room pm' row col b cls))"
proof -
  have keys: "set (adjacentKeys room row col b) \<subseteq>
      {posKey row col (if b = 1 then 2 else 1), posKey row (col - 1) 1, posKey row (col - 1) 2,
       posKey row (col + 1) 1, posKey row (col + 1) 2}"
    using assms by (auto simp: adjacentKeys_def)
  have notin: "posKey (row - 1) col b' \<notin> set (adjacentKeys room row col b)"
       "posKey (row + 1) col b' \<notin> set (adjacentKeys room row col b)"
       "posKey (row - 1) col b' \<noteq> posKey row col b" "posKey (row + 1) col b' \<noteq> posKey row col b"
    using assms by (auto simp: adjacentKeys_def posKey_def)
  have 1: "isPositionAvailable room (pm(posKey (row - 1) col b' \<mapsto> occ)) row col b cls
         = isPositionAvailable room pm row col b cls"
    by (rule available_cong) (use notin in auto)
  have 2: "isPositionAvailable room (pm(posKey (row + 1) col b' \<mapsto> occ)) row col b cls
         = isPositionAvailable room pm row col b cls"
    by (rule available_cong) (use notin in auto)
  have 3: "constraintViolation room (pm(posKey (row - 1) col b' \<mapsto> occ)) row col b cls
         = constraintViolation room pm row col b cls"
    by (rule constraintViolation_cong) (use notin in auto)
  have 4: "constraintViolation room (pm(posKey (row + 1) col b' \<mapsto> occ)) row col b cls
         = constraintViolation room pm row col b cls"
    by (rule constraintViolation_cong) (use notin in auto)
  have 5: "constraintViolation room pm row col b cls = constraintViolation room pm' row col b cls"
    if "pm (posKey row col (if b = 1 then 2 else 1)) = pm' (posKey row col (if b = 1 then 2 else 1))"
       "pm (posKey row (col - 1) 1) = pm' (posKey row (col - 1) 1)"
       "pm (posKey row (col - 1) 2) = pm' (posKey row (col - 1) 2)"
       "pm (posKey row (col + 1) 1) = pm' (posKey row (col + 1) 1)"
       "pm (posKey row (col + 1) 2) = pm' (posKey row (col + 1) 2)"
    by (rule constraintViolation_cong) (use keys that in auto)
  have 6: "isPositionAvailable room pm row col b cls = isPositionAvailable room pm' row col b cls"
    if "pm (posKey row col (if b = 1 then 2 else 1)) = pm' (posKey row col (if b = 1 then 2 else 1))"
       "pm (posKey row (col - 1) 1) = pm' (posKey row (col - 1) 1)"
       "pm (posKey row (col - 1) 2) = pm' (posKey row (col - 1) 2)"
       "pm (posKey row (col + 1) 1) = pm' (posKey row (col + 1) 1)"
       "pm (posKey row (col + 1) 2) = pm' (posKey row (col + 1) 2)"
       "pm (posKey row col b) = pm' (posKey row col b)"
    by (rule available_cong) (use keys that in auto)
  show ?thesis using 1 2 3 4 5 6 by blast
qed

theorem two_per_bench_front_back_free_witness:
  "isPositionAvailable (mkRoom 3 3 2) [posKey 1 2 1 \<mapsto> occX ''S1''] 2 2 1 (Some ''X'')
   \<and> isPositionAvailable (mkRoom 3 3 2) [posKey 3 2 1 \<mapsto> occX ''S1''] 2 2 1 (Some ''X'')
   \<and> constraintViolation (mkRoom 3 3 2) [posKey 1 2 1 \<mapsto> occX ''S1''] 2 2 1 (Some ''X'') = None
   \<and> constraintViolation (mkRoom 3 3 2) [posKey 3 2 1 \<mapsto> occX ''S1''] 2 2 1 (Some ''X'') = None"
proof -
  have h: "studentsPerBench (mkRoom 3 3 2) = 2" by (simp add: mkRoom_def)
  have a: "isPositionAvailable (mkRoom 3 3 2) Map.empty 2 2 1 (Some ''X'')"
    by (simp add: isPositionAvailable_def mkRoom_def sameClassAt_def checkSide_def)
  have c: "constraintViolation (mkRoom 3 3 2) Map.empty 2 2 1 (Some ''X'') = None"
    by (simp add: constraintViolation_def mkRoom_def sameClassAt_def checkSide_def)
  show ?thesis
    using two_per_bench_front_back_free[OF h, of Map.empty 2 2 1 "occX ''S1''" 1 "Some ''X''" Map.empty]
      a c by simp
qed

text \<open>
  Claim C7. For a room with one or two students per bench and two seats of the room,
  the second seat is among the keys read for the first exactly when the first is among
  the keys read for the second. Equivalently, for a class id that is not null (nor
  empty), an occupant of this class at the second seat makes the first seat unavailable
  exactly when an occupant of this class at the first seat makes the second unavailable,
  in the availability test of the automatic handler and in the constraint test of the
  manual handler.
\<close>

theorem adjacency_symmetric:
  assumes "studentsPerBench room = 1 \<or> studentsPerBench room = 2"
      and "isInRange room r c b" and "isInRange room r' c' b'"
  shows "(posKey r' c' b' \<in> set (adjacentKeys room r c b))
           = (posKey r c b \<in> set (adjacentKeys room r' c' b'))
     \<and> (truthy cls \<longrightarrow>
          isPositionAvailable room
            [posKey r' c' b' \<mapsto> \<lparr>occ_studentId = s', occ_classId = cls\<rparr>] r c b cls
        = isPositionAvailable room
            [posKey r c b \<mapsto> \<lparr>occ_studentId = s, occ_classId = cls\<rparr>] r' c' b' cls)
     \<and> (truthy cls \<longrightarrow>
          (constraintViolation room
             [posKey r' c' b' \<mapsto> \<lparr>occ_studentId = s', occ_classId = cls\<rparr>] r c b cls = None)
        = (constraintViolation room
             [posKey r c b \<mapsto> \<lparr>occ_studentId = s, occ_classId = cls\<rparr>] r' c' b' cls = None))"
proof -
  have sym: "(posKey r' c' b' \<in> set (adjacentKeys room r c b))
           = (posKey r c b \<in> set (adjacentKeys room r' c' b'))"
    using adjacentKeys_sym[OF assms(1) assms(2) assms(3)]
          adjacentKeys_sym[OF assms(1) assms(3) assms(2)] by blast
  show ?thesis using sym
    by (auto simp: isPositionAvailable_iff constraintViolation_iff list_ex_single)
qed

theorem adjacency_symmetric_witness:
  "posKey 1 2 1 \<in> set (adjacentKeys (mkRoom 1 3 2) 1 1 2)
   \<and> posKey 1 1 2 \<in> set (adjacentKeys (mkRoom 1 3 2) 1 2 1)
   \<and> \<not> isPositionAvailable (mkRoom 1 3 2)
         [posKey 1 2 1 \<mapsto> \<lparr>occ_studentId = ''S2'', occ_classId = Some ''X''\<rparr>] 1 1 2 (Some ''X'')
   \<and> \<not> isPositionAvailable (mkRoom 1 3 2)
         [posKey 1 1 2 \<mapsto> \<lparr>occ_studentId = ''S1'', occ_classId = Some ''X''\<rparr>] 1 2 1 (Some ''X'')"
proof -
  have a: "studentsPerBench (mkRoom 1 3 2) = 1 \<or> studentsPerBench (mkRoom 1 3 2) = 2"
    by (simp add: mkRoom_def)
  have b: "isInRange (mkRoom 1 3 2) 1 1 2" by (simp add: mkRoom_def isInRange_def)
  have c: "isInRange (mkRoom 1 3 2) 1 2 1" by (simp add: mkRoom_def isInRange_def)
  have t: "truthy (Some ''X'')" by (simp add: truthy_def)
  have d: "posKey 1 2 1 \<in> set (adjacentKeys (mkRoom 1 3 2) 1 1 2)"
    by (simp add: adjacentKeys_def mkRoom_def)
  have e: "\<not> isPositionAvailable (mkRoom 1 3 2)
         [posKey 1 2 1 \<mapsto> \<lparr>occ_studentId = ''S2'', occ_classId = Some ''X''\<rparr>] 1 1 2 (Some ''X'')"
    by (simp add: isPositionAvailable_def mkRoom_def posKey_def sameClassAt_def checkSide_def truthy_def)
  show ?thesis
    using adjacency_symmetric[OF a b c, of "Some ''X''" "''S2''" "''S1''"] t d e by simp
qed

subsection \<open>Duplicate student ids in the automatic handler\<close>

lemma autoPrepare_duplicates:
  assumes "distinct (map student_id (students d))"
    and "areq_studentIds req = Some ids" and "\<not> distinct ids"
  shows "autoPrepare d schoolId req = Inl AutoRequiredFields
       \<or> autoPrepare d schoolId req = Inl AutoRoomNotFound
       \<or> autoPrepare d schoolId req = Inl AutoSomeStudentsNotFound"
proof -
  have "length (findManyStudents d ids schoolId) \<le> card (set ids)"
    using findMany_length_le[OF assms(1)] .
  moreover have "card (set ids) < length ids"
    using assms(3) card_length[of ids] card_distinct[of ids] by linarith
  ultimately have ne: "length (findManyStudents d ids schoolId) \<noteq> length ids" by simp
  show ?thesis
  proof (cases "areq_roomAllocationId req")
    case None
    then show ?thesis by (simp add: autoPrepare_def)
  next
    case (Some rid)
    show ?thesis
    proof (cases "findFirstRoom d rid schoolId")
      case None
      with Some assms(2) show ?thesis by (simp add: autoPrepare_def)
    next
      case (Some room)
      with \<open>areq_roomAllocationId req = Some rid\<close> assms(2) ne show ?thesis
        by (simp add: autoPrepare_def Let_def)
    qed
  qed
qed

lemma autoPrepare_not_duplicate:
  assumes "distinct (map student_id (students d))"
  shows "autoPrepare d schoolId req \<noteq> Inl AutoDuplicateStudents"
proof -
  have "length (setFrom ids) = length ids"
    if "length (findManyStudents d ids schoolId) = length ids" for ids
  proof -
    have "length ids \<le> card (set ids)"
      using findMany_length_le[OF assms, of ids schoolId] that by simp
    then have "distinct ids" using card_length[of ids] by (simp add: card_distinct)
    then show ?thesis by (simp add: length_setFrom_eq)
  qed
  then show ?thesis
    by (auto simp: autoPrepare_def Let_def split: option.splits)
qed

lemma autoCommit_not_duplicate:
  "fst (autoCommit d rid ids st) \<noteq> AutoDuplicateStudents"
  by (simp add: autoCommit_def Let_def split: option.splits)

text \<open>
  Claim C10. Student ids are the primary key of the table of students (the sources use
  \<^verbatim>\<open>findUnique\<close> on it). Under this condition the automatic handler never answers
  with the response of its duplicate check. A request whose list of student ids has a
  duplicate is rejected without a write, by one of the checks before the duplicate check;
  once it has passed the checks of the request fields and of the room, it is rejected by
  the comparison of the number of students found with the length of the list.
\<close>

theorem duplicate_check_unreachable:
  assumes "distinct (map student_id (students d))"
  shows "fst (autoAssign d schoolId req) \<noteq> AutoDuplicateStudents
     \<and> (areq_studentIds req' = Some ids \<and> \<not> distinct ids \<longrightarrow>
          snd (autoAssign d schoolId' req') = ([], d)
          \<and> fst (autoAssign d schoolId' req')
               \<in> {AutoRequiredFields, AutoRoomNotFound, AutoSomeStudentsNotFound}
          \<and> (areq_roomAllocationId req' = Some rid \<and> rid \<noteq> [] \<and>
               findFirstRoom d rid schoolId' = Some room \<longrightarrow>
               autoAssign d schoolId' req' = (AutoSomeStudentsNotFound, [], d)))"
proof (intro conjI impI)
  show "fst (autoAssign d schoolId req) \<noteq> AutoDuplicateStudents"
    using autoPrepare_not_duplicate[OF assms, of schoolId req]
          autoCommit_not_duplicate
    by (auto simp: autoAssign_def split: sum.splits)
next
  assume a: "areq_studentIds req' = Some ids \<and> \<not> distinct ids"
  note p = autoPrepare_duplicates[OF assms, of req' ids schoolId']
  from a p show "snd (autoAssign d schoolId' req') = ([], d)"
    by (auto simp: autoAssign_def)
  from a p show "fst (autoAssign d schoolId' req')
               \<in> {AutoRequiredFields, AutoRoomNotFound, AutoSomeStudentsNotFound}"
    by (auto simp: autoAssign_def)
  assume b: "areq_roomAllocationId req' = Some rid \<and> rid \<noteq> [] \<and>
               findFirstRoom d rid schoolId' = Some room"
  have "ids \<noteq> []" using a by auto
  with a b p show "autoAssign d schoolId' req' = (AutoSomeStudentsNotFound, [], d)"
    by (auto simp: autoAssign_def autoPrepare_def Let_def split: if_splits)
qed

theorem duplicate_check_unreachable_witness:
  "autoAssign (dbMove True) ''school'' (autoReq [''S1'', ''S1'']) =
     (AutoSomeStudentsNotFound, [], dbMove True)"
proof -
  have h: "distinct (map student_id (students (dbMove True)))" by code_simp
  have a: "areq_studentIds (autoReq [''S1'', ''S1'']) = Some [''S1'', ''S1''] \<and>
           \<not> distinct [''S1'', ''S1'']"
    by (simp add: autoReq_def)
  have b: "areq_roomAllocationId (autoReq [''S1'', ''S1'']) = Some ''room'' \<and> ''room'' \<noteq> [] \<and>
           findFirstRoom (dbMove True) ''room'' ''school'' = Some (mkRoom 1 2 1)"
    by (simp add: autoReq_def findFirstRoom_def dbMove_def mkDb_def mkRoom_def)
  show ?thesis
    using duplicate_check_unreachable[OF h, of "''school''" "autoReq [''S1'', ''S1'']"
        "autoReq [''S1'', ''S1'']" "[''S1'', ''S1'']" "''school''" "''room''" "mkRoom 1 2 1"]
      a b by blast
qed

subsection \<open>The index of the manual handler\<close>

text \<open>
  Claim C1, evaluated where it fails. S1 sits at (1,1,1) and is the only student of the
  batch, which moves S1 to (1,2,1). The index of the manual handler still holds S1 at
  (1,1,1), so the batch is refused as adjacent to a student of the same class, and
  nothing is written. The automatic handler, given the same store and S1, removes the
  entry of S1 first and seats S1 at (1,1,1).
\<close>

theorem manual_index_keeps_reassigned_student:
  "manualAssign (dbMove True) ''school'' (manualReq [mkTuple ''S1'' 1 2 1]) =
     (ManAdjacentSameClass (Some ''X''), [], dbMove True)
   \<and> manualAssign (dbMove False) ''school'' (manualReq [mkTuple ''S1'' 1 2 1]) =
     (ManAdjacentSameClass (Some ''X''), [], dbMove False)
   \<and> seedPositionMap (dbMove True) (studentAssignments (dbMove True) ''room'') (posKey 1 1 1) =
       Some (occX ''S1'')
   \<and> fst (autoAssign (dbMove True) ''school'' (autoReq [''S1''])) =
       AutoAssigned 1 [mkPlacement ''S1'' 1 1 1]"
  by code_simp

text \<open>
  Claim C2, evaluated where it fails. S2 (not in the batch) sits at (1,1,1), S1 at
  (1,3,1), and the batch moves S1 to (1,1,1). The manual handler accepts the tuple and
  issues both writes. Without the unique seat index the seat (1,1,1) then has two rows;
  with it the insert is refused after the delete has removed the row of S1. The
  availability test of the automatic handler refuses the seat on the same index.
\<close>

theorem manual_accepts_occupied_seat:
  "manualAssign (dbTaken False) ''school'' (manualReq [mkTuple ''S1'' 1 1 1]) =
     (ManAssigned, [DeleteMany ''room'' [''S1''], CreateMany [mkSeat ''S1'' 1 1 1]],
      (dbTaken False)\<lparr>roomStudentAssignments := [mkSeat ''S2'' 1 1 1, mkSeat ''S1'' 1 1 1]\<rparr>)
   \<and> manualAssign (dbTaken True) ''school'' (manualReq [mkTuple ''S1'' 1 1 1]) =
     (ManDuplicateAssignment, [DeleteMany ''room'' [''S1''], CreateMany [mkSeat ''S1'' 1 1 1]],
      (dbTaken True)\<lparr>roomStudentAssignments := [mkSeat ''S2'' 1 1 1]\<rparr>)
   \<and> \<not> isPositionAvailable (mkRoom 1 3 1)
         (seedPositionMap (dbTaken True) (studentAssignments (dbTaken True) ''room''))
         1 1 1 (Some ''X'')"
  by code_simp

subsection \<open>Preservation of the safety invariant by the automatic handler\<close>

text \<open>
  The automatic handler keeps the rows of the students it does not reassign, tests every
  new seat against them and against the seats it has already given, and writes only seats
  of the grid. So a store that is well formed and safe is again well formed and safe
  after a successful automatic assignment (\<open>autoAssign_preserves\<close>), with or without
  the unique seat index.
\<close>

lemma safeRows_iff:
  "safeRows d n rs =
     (distinct (map seatKey rs) \<and> (\<forall>a \<in> set rs. \<forall>b \<in> set rs. \<not> conflicting d n a b))"
  by (simp add: safeRows_def list_all_iff)

lemma covers_iff: "covers d pm rs = (\<forall>a \<in> set rs. pm (seatKey a) = Some (occupantOf d a))"
  by (simp add: covers_def list_all_iff)

lemma adjacentCoordinates_keys:
  assumes "studentsPerBench room = 1 \<or> studentsPerBench room = 2"
    and "isInRange room r' c' b'"
  shows "((r', c', b') \<in> set (adjacentCoordinates (studentsPerBench room) (r, c, b)))
       = (posKey r' c' b' \<in> set (adjacentKeys room r c b))"
  using assms
  by (auto simp: adjacentCoordinates_def adjacentKeys_def adjacentPositions_def posKey_def
                 isInRange_def)

lemma adjacentCoordinates_irrefl:
  "k \<notin> set (adjacentCoordinates n k)"
  by (cases k) (auto simp: adjacentCoordinates_def)

lemma classIdOf_nonempty:
  assumes "list_all (\<lambda>s. student_classId s \<noteq> Some []) (students d)"
  shows "classIdOf d i \<noteq> Some []"
proof (cases "find (\<lambda>s. student_id s = i) (students d)")
  case None
  then show ?thesis by (simp add: classIdOf_def)
next
  case (Some s)
  then have "s \<in> set (students d)" by (auto simp: find_Some_iff in_set_conv_nth)
  with assms Some show ?thesis by (simp add: classIdOf_def list_all_iff)
qed

lemma classIdOf_student:
  assumes "distinct (map student_id (students d))" and "s \<in> set (students d)"
  shows "classIdOf d (student_id s) = student_classId s"
proof -
  obtain s' where f: "find (\<lambda>x. student_id x = student_id s) (students d) = Some s'"
    using assms(2) by (cases "find (\<lambda>x. student_id x = student_id s) (students d)")
                      (auto simp: find_None_iff)
  then have "s' \<in> set (students d)" "student_id s' = student_id s"
    by (auto simp: find_Some_iff in_set_conv_nth)
  then have "s' = s" using assms by (meson distinct_map inj_onD)
  with f show ?thesis by (simp add: classIdOf_def)
qed

lemma add_row_safe:
  assumes bench: "studentsPerBench room = 1 \<or> studentsPerBench room = 2"
    and nonempty: "list_all (\<lambda>s. student_classId s \<noteq> Some []) (students d)"
    and safe: "safeRows d (studentsPerBench room) rs"
    and range: "list_all (rowInRange room) rs"
    and cov: "covers d pm rs"
    and new_range: "rowInRange room new"
    and fresh: "seatKey new \<notin> seatKey ` set rs"
    and ok: "\<not> list_ex (\<lambda>k. sameClassAt pm k (classIdOf d (asg_studentId new)))
                 (adjacentKeys room (asg_row new) (asg_column new) (asg_benchPosition new))"
  shows "safeRows d (studentsPerBench room) (rs @ [new])"
proof -
  let ?n = "studentsPerBench room"
  let ?cls = "classIdOf d (asg_studentId new)"
  have key_new: "seatKey new = (asg_row new, asg_column new, asg_benchPosition new)"
    by (simp add: seatKey_def posKey_def)
  have no_adj: "seatKey a \<notin> set (adjacentKeys room (asg_row new) (asg_column new) (asg_benchPosition new))"
    if a: "a \<in> set rs" and cl: "classIdOf d (asg_studentId a) = ?cls" "?cls \<noteq> None" for a
  proof
    assume m: "seatKey a \<in> set (adjacentKeys room (asg_row new) (asg_column new) (asg_benchPosition new))"
    have "pm (seatKey a) = Some (occupantOf d a)" using cov a by (simp add: covers_iff)
    moreover have "truthy ?cls"
      using cl(2) classIdOf_nonempty[OF nonempty, of "asg_studentId new"]
      by (cases ?cls) (auto simp: truthy_def)
    ultimately have "sameClassAt pm (seatKey a) ?cls"
      using cl(1) by (simp add: sameClassAt_def occupantOf_def)
    with m ok show False by (auto simp: list_ex_iff)
  qed
  have in_range: "isInRange room (asg_row a) (asg_column a) (asg_benchPosition a)" if "a \<in> set rs" for a
    using range that by (simp add: list_all_iff rowInRange_def)
  have nr: "isInRange room (asg_row new) (asg_column new) (asg_benchPosition new)"
    using new_range by (simp add: rowInRange_def)
  have c1: "\<not> conflicting d ?n new a" if a: "a \<in> set rs" for a
  proof
    assume c: "conflicting d ?n new a"
    then have "(asg_row a, asg_column a, asg_benchPosition a)
                 \<in> set (adjacentCoordinates ?n (asg_row new, asg_column new, asg_benchPosition new))"
      by (simp add: conflicting_def seatKey_def posKey_def)
    then have "seatKey a \<in> set (adjacentKeys room (asg_row new) (asg_column new) (asg_benchPosition new))"
      using adjacentCoordinates_keys[OF bench in_range[OF a]] by (simp add: seatKey_def)
    moreover from c have "?cls = classIdOf d (asg_studentId a) \<and> ?cls \<noteq> None"
      unfolding conflicting_def by blast
    then have "classIdOf d (asg_studentId a) = ?cls" "?cls \<noteq> None" by metis+
    ultimately show False using no_adj[OF a] by blast
  qed
  have c2: "\<not> conflicting d ?n a new" if a: "a \<in> set rs" for a
  proof
    assume c: "conflicting d ?n a new"
    then have "(asg_row new, asg_column new, asg_benchPosition new)
                 \<in> set (adjacentCoordinates ?n (asg_row a, asg_column a, asg_benchPosition a))"
      by (simp add: conflicting_def seatKey_def posKey_def)
    then have "posKey (asg_row new) (asg_column new) (asg_benchPosition new)
                 \<in> set (adjacentKeys room (asg_row a) (asg_column a) (asg_benchPosition a))"
      using adjacentCoordinates_keys[OF bench nr] by simp
    then have "seatKey a \<in> set (adjacentKeys room (asg_row new) (asg_column new) (asg_benchPosition new))"
      using adjacentKeys_sym[OF bench in_range[OF a] nr] by (simp add: seatKey_def)
    moreover from c have "classIdOf d (asg_studentId a) = ?cls \<and>
        classIdOf d (asg_studentId a) \<noteq> None"
      unfolding conflicting_def by blast
    then have "classIdOf d (asg_studentId a) = ?cls" "?cls \<noteq> None" by metis+
    ultimately show False using no_adj[OF a] by blast
  qed
  have c3: "\<not> conflicting d ?n new new"
    using adjacentCoordinates_irrefl[of "seatKey new" ?n] by (simp add: conflicting_def)
  show ?thesis
    using safe fresh c1 c2 c3 by (auto simp: safeRows_iff)
qed

lemma scanOrder_inRange:
  assumes "(r, c, b) \<in> set (scanOrder room)"
  shows "isInRange room r c b"
  using assms by (auto simp: scanOrder_def isInRange_def posKey_def)

lemma placeStudent_invariant:
  assumes bench: "studentsPerBench room = 1 \<or> studentsPerBench room = 2"
    and nonempty: "list_all (\<lambda>s. student_classId s \<noteq> Some []) (students d)"
    and cls: "classIdOf d (student_id s) = student_classId s"
    and inv: "rowsInvariant d room (sv_positionMap st)
                (kept @ map (placementRow rid) (sv_assignments st))"
  shows "rowsInvariant d room (sv_positionMap (placeStudent room st s))
           (kept @ map (placementRow rid) (sv_assignments (placeStudent room st s)))"
proof (cases "find (\<lambda>(row, col, benchPos).
                   isPositionAvailable room (sv_positionMap st) row col benchPos (student_classId s))
                (scanOrder room)")
  case None
  then show ?thesis using inv by (simp add: placeStudent_def)
next
  case (Some k)
  obtain r c b where k: "k = (r, c, b)" by (cases k) auto
  let ?rs = "kept @ map (placementRow rid) (sv_assignments st)"
  let ?p = "\<lparr>pl_studentId = student_id s, pl_row = r, pl_column = c, pl_benchPosition = b\<rparr>"
  let ?new = "placementRow rid ?p"
  let ?pm = "sv_positionMap st"
  from Some k have mem: "(r, c, b) \<in> set (scanOrder room)"
    and av: "isPositionAvailable room ?pm r c b (student_classId s)"
    by (auto simp: find_Some_iff in_set_conv_nth)
  have st': "sv_positionMap (placeStudent room st s) =
               ?pm(posKey r c b \<mapsto> \<lparr>occ_studentId = student_id s, occ_classId = student_classId s\<rparr>)"
       "sv_assignments (placeStudent room st s) = sv_assignments st @ [?p]"
    using Some k by (simp_all add: placeStudent_def)
  have key: "seatKey ?new = posKey r c b" by (simp add: seatKey_def placementRow_def)
  have occ: "occupantOf d ?new = \<lparr>occ_studentId = student_id s, occ_classId = student_classId s\<rparr>"
    using cls by (simp add: occupantOf_def placementRow_def)
  have safe: "safeRows d (studentsPerBench room) ?rs" and range: "list_all (rowInRange room) ?rs"
    and cov: "covers d ?pm ?rs"
    using inv by (simp_all add: rowsInvariant_def)
  have free: "?pm (posKey r c b) = None"
    and ok: "\<not> list_ex (\<lambda>k. sameClassAt ?pm k (student_classId s)) (adjacentKeys room r c b)"
    using av by (simp_all add: isPositionAvailable_iff)
  have fresh: "seatKey ?new \<notin> seatKey ` set ?rs"
  proof
    assume "seatKey ?new \<in> seatKey ` set ?rs"
    then obtain a where "a \<in> set ?rs" "seatKey ?new = seatKey a" by (rule imageE)
    then have a: "a \<in> set ?rs" "seatKey a = posKey r c b" using key by simp_all
    from cov a(1) have "?pm (seatKey a) = Some (occupantOf d a)" unfolding covers_iff by blast
    then have "?pm (posKey r c b) = Some (occupantOf d a)" using a(2) by simp
    with free show False by simp
  qed
  have new_range: "rowInRange room ?new"
    using scanOrder_inRange[OF mem] by (simp add: rowInRange_def placementRow_def)
  have ok': "\<not> list_ex (\<lambda>k. sameClassAt ?pm k (classIdOf d (asg_studentId ?new)))
                 (adjacentKeys room (asg_row ?new) (asg_column ?new) (asg_benchPosition ?new))"
    using ok cls by (simp add: placementRow_def)
  have safe': "safeRows d (studentsPerBench room) (?rs @ [?new])"
    by (rule add_row_safe[OF bench nonempty safe range cov new_range fresh ok'])
  have range': "list_all (rowInRange room) (?rs @ [?new])"
    using range new_range by simp
  have cov': "covers d (?pm(posKey r c b \<mapsto> \<lparr>occ_studentId = student_id s, occ_classId = student_classId s\<rparr>))
                (?rs @ [?new])"
    unfolding covers_iff
  proof
    fix a assume a: "a \<in> set (?rs @ [?new])"
    show "(?pm(posKey r c b \<mapsto> \<lparr>occ_studentId = student_id s, occ_classId = student_classId s\<rparr>))
            (seatKey a) = Some (occupantOf d a)"
    proof (cases "a = ?new")
      case True
      then show ?thesis using key occ by simp
    next
      case False
      with a have ars: "a \<in> set ?rs" by auto
      then have "seatKey a \<noteq> posKey r c b" using fresh key by force
      moreover have "?pm (seatKey a) = Some (occupantOf d a)" using cov ars by (simp add: covers_iff)
      ultimately show ?thesis by simp
    qed
  qed
  show ?thesis
    unfolding st' using safe' range' cov' by (simp add: rowsInvariant_def)
qed

lemma foldl_placeStudent_invariant:
  assumes bench: "studentsPerBench room = 1 \<or> studentsPerBench room = 2"
    and nonempty: "list_all (\<lambda>s. student_classId s \<noteq> Some []) (students d)"
    and cls: "\<And>s. s \<in> set xs \<Longrightarrow> classIdOf d (student_id s) = student_classId s"
    and inv: "rowsInvariant d room (sv_positionMap st)
                (kept @ map (placementRow rid) (sv_assignments st))"
  shows "rowsInvariant d room (sv_positionMap (foldl (placeStudent room) st xs))
           (kept @ map (placementRow rid) (sv_assignments (foldl (placeStudent room) st xs)))"
  using cls inv
proof (induction xs arbitrary: st)
  case Nil
  then show ?case by simp
next
  case (Cons x xs)
  have "rowsInvariant d room (sv_positionMap (placeStudent room st x))
           (kept @ map (placementRow rid) (sv_assignments (placeStudent room st x)))"
    by (rule placeStudent_invariant[OF bench nonempty _ Cons.prems(2)]) (simp add: Cons.prems(1))
  then show ?case using Cons.IH[of "placeStudent room st x"] Cons.prems(1) by simp
qed

lemma pushStudent_members:
  "set (concat (map snd (pushStudent m s))) \<subseteq> set (concat (map snd m)) \<union> {s}"
  by (auto simp: pushStudent_def Let_def split: if_splits)

lemma studentsByClass_members_aux:
  "set (concat (map snd (foldl pushStudent m xs))) \<subseteq> set (concat (map snd m)) \<union> set xs"
proof (induction xs arbitrary: m)
  case Nil
  then show ?case by simp
next
  case (Cons x xs)
  show ?case using Cons.IH[of "pushStudent m x"] pushStudent_members[of m x] by auto
qed

lemma studentsByClass_members:
  "set (concat (map snd (studentsByClass studs))) \<subseteq> set studs"
  using studentsByClass_members_aux[of "[]" studs] by (simp add: studentsByClass_def)

lemma seedPositionMap_snoc:
  "seedPositionMap d (rs @ [e]) = (seedPositionMap d rs)(seatKey e \<mapsto> occupantOf d e)"
  by (simp add: seedPositionMap_def seatKey_def occupantOf_def)

lemma seedPositionMap_covers:
  "distinct (map seatKey rs) \<Longrightarrow> covers d (seedPositionMap d rs) rs"
proof (induction rs rule: rev_induct)
  case Nil
  then show ?case by (simp add: covers_def)
next
  case (snoc e rs)
  then have c: "covers d (seedPositionMap d rs) rs" and f: "seatKey e \<notin> seatKey ` set rs" by auto
  have "seedPositionMap d (rs @ [e]) (seatKey a) = Some (occupantOf d a)" if "a \<in> set (rs @ [e])" for a
  proof (cases "seatKey a = seatKey e")
    case True
    have "a \<notin> set rs" using f True by (metis imageI)
    with that have "a = e" by simp
    then show ?thesis by (simp add: seedPositionMap_snoc)
  next
    case False
    with that have "a \<in> set rs" by auto
    with c False show ?thesis by (simp add: seedPositionMap_snoc covers_iff)
  qed
  then show ?case unfolding covers_iff by blast
qed

lemma removeReassigned_keeps:
  assumes "pm k = Some v" and "occ_studentId v \<notin> set ids"
  shows "removeReassigned xs ids pm k = Some v"
  using assms unfolding removeReassigned_def
proof (induction xs arbitrary: pm)
  case Nil
  then show ?case by simp
next
  case (Cons x xs)
  have "(if x \<in> set ids then removeStudent x pm else pm) k = Some v"
    using Cons.prems by (auto simp: removeStudent_def)
  then show ?case using Cons.IH Cons.prems(2) by simp
qed

lemma safeRows_filter:
  "safeRows d n rs \<Longrightarrow> safeRows d n (filter P rs)"
  by (auto simp: safeRows_iff distinct_map_filter)

lemma autoSolve_invariant:
  assumes bench: "studentsPerBench room = 1 \<or> studentsPerBench room = 2"
    and nonempty: "list_all (\<lambda>s. student_classId s \<noteq> Some []) (students d)"
    and keys: "distinct (map student_id (students d))"
    and studs: "set studs \<subseteq> set (students d)"
    and safe: "safeRows d (studentsPerBench room) (studentAssignments d (room_id room))"
    and range: "list_all (rowInRange room) (studentAssignments d (room_id room))"
  shows "rowsInvariant d room (sv_positionMap (autoSolve d room studentIds studs))
           (filter (\<lambda>a. asg_studentId a \<notin> set (setFrom studentIds))
               (studentAssignments d (room_id room))
            @ map (placementRow rid) (sv_assignments (autoSolve d room studentIds studs)))"
proof -
  let ?E = "studentAssignments d (room_id room)"
  let ?U = "setFrom studentIds"
  let ?K = "filter (\<lambda>a. asg_studentId a \<notin> set ?U) ?E"
  let ?pm = "removeReassigned (setFrom (map asg_studentId ?E)) ?U (seedPositionMap d ?E)"
  let ?st0 = "\<lparr>sv_positionMap = ?pm, sv_assignments = [], sv_unassigned = []\<rparr>"
  have covE: "covers d (seedPositionMap d ?E) ?E"
    using safe by (simp add: seedPositionMap_covers safeRows_iff)
  have cov: "covers d ?pm ?K"
    unfolding covers_iff
  proof
    fix a assume "a \<in> set ?K"
    then have a: "a \<in> set ?E" "asg_studentId a \<notin> set ?U" by auto
    then have "seedPositionMap d ?E (seatKey a) = Some (occupantOf d a)"
      using covE by (simp add: covers_iff)
    then show "?pm (seatKey a) = Some (occupantOf d a)"
      by (rule removeReassigned_keeps) (use a in \<open>simp add: occupantOf_def\<close>)
  qed
  have inv0: "rowsInvariant d room (sv_positionMap ?st0)
                (?K @ map (placementRow rid) (sv_assignments ?st0))"
    using safeRows_filter[OF safe] range cov by (simp add: rowsInvariant_def list_all_iff)
  have cls: "classIdOf d (student_id s) = student_classId s"
    if "s \<in> set (concat (map snd (studentsByClass studs)))" for s
    using that studentsByClass_members[of studs] studs classIdOf_student[OF keys, of s] by blast
  have "rowsInvariant d room
          (sv_positionMap (foldl (placeStudent room) ?st0 (concat (map snd (studentsByClass studs)))))
          (?K @ map (placementRow rid)
             (sv_assignments (foldl (placeStudent room) ?st0 (concat (map snd (studentsByClass studs))))))"
    by (rule foldl_placeStudent_invariant[OF bench nonempty _ inv0]) (rule cls)
  then show ?thesis
    by (simp add: autoSolve_def solve_def Let_def)
qed

lemma findFirstRoom_Some:
  assumes "findFirstRoom d rid schoolId = Some room"
  shows "room \<in> set (roomAllocations d)" and "room_id room = rid"
  using assms by (auto simp: findFirstRoom_def find_Some_iff in_set_conv_nth)

lemma safeRows_cong:
  assumes "students d' = students d"
  shows "safeRows d' n rs = safeRows d n rs"
proof -
  have "classIdOf d' = classIdOf d" by (rule ext) (simp add: classIdOf_def assms)
  then show ?thesis by (simp add: safeRows_def conflicting_def)
qed

lemma studentAssignments_deleteMany:
  "studentAssignments (deleteMany d rid ids) r =
     (if r = rid then filter (\<lambda>a. asg_studentId a \<notin> set ids) (studentAssignments d rid)
      else studentAssignments d r)"
proof (cases "r = rid")
  case True
  have "filter (\<lambda>a. asg_roomAllocationId a = rid)
          (filter (\<lambda>a. \<not> (asg_roomAllocationId a = rid \<and> asg_studentId a \<in> set ids)) xs) =
        filter (\<lambda>a. asg_studentId a \<notin> set ids)
          (filter (\<lambda>a. asg_roomAllocationId a = rid) xs)" for xs
    by (induction xs) simp_all
  with True show ?thesis by (simp add: studentAssignments_def deleteMany_def)
next
  case False
  have "filter (\<lambda>a. asg_roomAllocationId a = r)
          (filter (\<lambda>a. \<not> (asg_roomAllocationId a = rid \<and> asg_studentId a \<in> set ids)) xs) =
        filter (\<lambda>a. asg_roomAllocationId a = r) xs" for xs
    using False by (induction xs) simp_all
  with False show ?thesis by (simp add: studentAssignments_def deleteMany_def)
qed

lemma studentAssignments_append_rows:
  assumes "\<And>a. a \<in> set new \<Longrightarrow> asg_roomAllocationId a = rid"
  shows "studentAssignments (d\<lparr>roomStudentAssignments := roomStudentAssignments d @ new\<rparr>) r =
           (if r = rid then studentAssignments d rid @ new else studentAssignments d r)"
proof -
  have "filter (\<lambda>a. asg_roomAllocationId a = r) new = (if r = rid then new else [])"
    using assms by (induction new) auto
  then show ?thesis by (simp add: studentAssignments_def)
qed

lemma createMany_Some:
  assumes "createMany d new = Some d'"
  shows "d' = d\<lparr>roomStudentAssignments := roomStudentAssignments d @ new\<rparr>"
    and "uniqueSeatIndex d \<Longrightarrow> distinct (map seatOf (roomStudentAssignments d @ new))"
  using assms by (auto simp: createMany_def split: if_splits)

lemma autoCommit_success:
  assumes "autoCommit d rid ids st = (AutoAssigned n placed, ws, d')"
  shows "d' = (deleteMany d rid ids)\<lparr>roomStudentAssignments :=
                 roomStudentAssignments (deleteMany d rid ids)
                 @ map (placementRow rid) (sv_assignments st)\<rparr>"
proof (cases "sv_assignments st = []")
  case True
  with assms show ?thesis
    by (simp add: autoCommit_def Let_def split: if_splits)
next
  case False
  with assms obtain d2 where
    "createMany (deleteMany d rid ids) (map (placementRow rid) (sv_assignments st)) = Some d2"
    "d' = d2"
    by (auto simp: autoCommit_def Let_def split: if_splits option.splits)
  then show ?thesis using createMany_Some(1) by blast
qed

lemma storeSafe_step:
  assumes wf: "storeWellFormed d" and safe: "storeSafe d"
    and room: "room \<in> set (roomAllocations d)" "room_id room = rid"
    and tables: "students d' = students d" "roomAllocations d' = roomAllocations d"
    and other: "\<And>r. r \<noteq> rid \<Longrightarrow> studentAssignments d' r = studentAssignments d r"
    and here: "safeRows d (studentsPerBench room) (studentAssignments d' rid)"
              "list_all (rowInRange room) (studentAssignments d' rid)"
  shows "storeWellFormed d' \<and> storeSafe d'"
proof -
  have wf': "storeWellFormed d'" using wf tables by (simp add: storeWellFormed_def)
  have "seatsInRange d' r \<and> seatingSafe d' r" if r: "r \<in> set (roomAllocations d)" for r
  proof (cases "room_id r = rid")
    case True
    have "distinct (map room_id (roomAllocations d))" using wf by (simp add: storeWellFormed_def)
    then have "r = room" using r room True by (meson distinct_map inj_onD)
    then show ?thesis
      using here tables room(2) by (simp add: seatsInRange_def seatingSafe_def safeRows_cong[OF tables(1)])
  next
    case False
    have "seatsInRange d r \<and> seatingSafe d r" using safe r by (simp add: storeSafe_def list_all_iff)
    then show ?thesis
      using other[OF False] tables by (simp add: seatsInRange_def seatingSafe_def safeRows_cong[OF tables(1)])
  qed
  then have "storeSafe d'" using tables by (simp add: storeSafe_def list_all_iff)
  with wf' show ?thesis by simp
qed

lemma autoPrepare_Inr:
  assumes "autoPrepare d schoolId req = Inr (rid, ids, st)"
  shows "\<exists>room studentIds. findFirstRoom d rid schoolId = Some room \<and> ids = setFrom studentIds \<and>
           st = autoSolve d room studentIds (findManyStudents d studentIds schoolId)"
proof (cases "areq_roomAllocationId req")
  case None
  with assms show ?thesis by (simp add: autoPrepare_def)
next
  case r: (Some rid')
  show ?thesis
  proof (cases "areq_studentIds req")
    case None
    with assms r show ?thesis by (simp add: autoPrepare_def)
  next
    case i: (Some studentIds)
    show ?thesis
    proof (cases "findFirstRoom d rid' schoolId")
      case None
      with assms r i show ?thesis by (simp add: autoPrepare_def split: if_splits)
    next
      case (Some room)
      with assms r i show ?thesis
        by (auto simp add: autoPrepare_def Let_def split: if_splits)
    qed
  qed
qed

lemma autoAssign_Assigned:
  assumes "autoAssign d schoolId req = (AutoAssigned n placed, ws, d')"
  shows "\<exists>rid ids st. autoPrepare d schoolId req = Inr (rid, ids, st) \<and>
           autoCommit d rid ids st = (AutoAssigned n placed, ws, d')"
proof (cases "autoPrepare d schoolId req")
  case (Inl resp)
  with assms have "autoPrepare d schoolId req = Inl (AutoAssigned n placed)"
    by (simp add: autoAssign_def)
  then show ?thesis
    by (simp add: autoPrepare_def Let_def split: option.splits if_splits)
next
  case (Inr t)
  obtain rid ids st where "t = (rid, ids, st)" by (cases t) auto
  with Inr assms show ?thesis by (simp add: autoAssign_def)
qed

lemma autoAssign_preserves:
  assumes wf: "storeWellFormed d" and safe: "storeSafe d"
    and res: "autoAssign d schoolId req = (AutoAssigned n placed, ws, d')"
  shows "storeWellFormed d' \<and> storeSafe d'"
proof -
  from autoAssign_Assigned[OF res] obtain rid ids st
    where prep: "autoPrepare d schoolId req = Inr (rid, ids, st)"
    and com: "autoCommit d rid ids st = (AutoAssigned n placed, ws, d')"
    by blast
  from autoPrepare_Inr[OF prep] obtain room studentIds
    where room: "findFirstRoom d rid schoolId = Some room"
    and ids: "ids = setFrom studentIds"
    and st: "st = autoSolve d room studentIds (findManyStudents d studentIds schoolId)"
    by blast
  note rm = findFirstRoom_Some[OF room]
  have bench: "studentsPerBench room = 1 \<or> studentsPerBench room = 2"
    using wf rm(1) by (simp add: storeWellFormed_def list_all_iff benchSizeOk_def)
  have nonempty: "list_all (\<lambda>s. student_classId s \<noteq> Some []) (students d)"
    and keys: "distinct (map student_id (students d))"
    using wf by (simp_all add: storeWellFormed_def)
  have sub: "set (findManyStudents d studentIds schoolId) \<subseteq> set (students d)"
    by (auto simp: findManyStudents_def)
  have inv0: "safeRows d (studentsPerBench room) (studentAssignments d (room_id room))"
             "list_all (rowInRange room) (studentAssignments d (room_id room))"
    using safe rm(1) by (simp_all add: storeSafe_def list_all_iff seatingSafe_def seatsInRange_def)
  note inv = autoSolve_invariant[OF bench nonempty keys sub inv0, of studentIds rid]
  let ?new = "map (placementRow rid) (sv_assignments st)"
  have d': "d' = (deleteMany d rid ids)\<lparr>roomStudentAssignments :=
                 roomStudentAssignments (deleteMany d rid ids) @ ?new\<rparr>"
    by (rule autoCommit_success[OF com])
  have newroom: "\<And>a. a \<in> set ?new \<Longrightarrow> asg_roomAllocationId a = rid"
    by (auto simp: placementRow_def)
  have rows: "studentAssignments d' r =
      (if r = rid then filter (\<lambda>a. asg_studentId a \<notin> set ids) (studentAssignments d rid) @ ?new
       else studentAssignments d r)" for r
  proof -
    have "studentAssignments ((deleteMany d rid ids)\<lparr>roomStudentAssignments :=
             roomStudentAssignments (deleteMany d rid ids) @ ?new\<rparr>) r =
          (if r = rid then studentAssignments (deleteMany d rid ids) rid @ ?new
           else studentAssignments (deleteMany d rid ids) r)"
      by (rule studentAssignments_append_rows) (rule newroom)
    then show ?thesis unfolding d' by (simp add: studentAssignments_deleteMany)
  qed
  have tables: "students d' = students d" "roomAllocations d' = roomAllocations d"
    unfolding d' by (simp_all add: deleteMany_def)
  show ?thesis
  proof (rule storeSafe_step[OF wf safe rm tables])
    show "\<And>r. r \<noteq> rid \<Longrightarrow> studentAssignments d' r = studentAssignments d r" by (simp add: rows)
    show "safeRows d (studentsPerBench room) (studentAssignments d' rid)"
      using inv rm(2) by (simp add: rows rowsInvariant_def ids st)
    show "list_all (rowInRange room) (studentAssignments d' rid)"
      using inv rm(2) by (simp add: rows rowsInvariant_def ids st)
  qed
qed

subsection \<open>The safety invariant on the manual path\<close>

text \<open>
  Claim C3, evaluated where it fails. The store \<open>dbHidden\<close> is well formed and safe. The
  manual handler has no test of the seat of a tuple itself (the defect of claim C2): it
  accepts the batch, and S1 replaces S2 in its index at (1,1,1), so that S3 is not
  tested against S2. Without the unique seat index the handler answers with success;
  afterwards the seat (1,1,1) has two rows, and S2 and S3, both of class X, sit at the
  adjacent seats (1,1,1) and (1,2,1). With the unique seat index both writes are issued,
  the insert is refused and the answer is the duplicate error.
\<close>

theorem manual_success_breaks_safety:
  "storeWellFormed (dbHidden False) \<and> storeSafe (dbHidden False)
   \<and> fst (manualAssign (dbHidden False) ''school'' reqHidden) = ManAssigned
   \<and> roomStudentAssignments (snd (snd (manualAssign (dbHidden False) ''school'' reqHidden))) =
       [mkSeat ''S2'' 1 1 1, mkSeat ''S1'' 1 1 1, mkSeat ''S3'' 1 2 1]
   \<and> \<not> seatingSafe (snd (snd (manualAssign (dbHidden False) ''school'' reqHidden)))
         (mkRoom 1 3 1)
   \<and> \<not> distinct (map seatKey
          (studentAssignments (snd (snd (manualAssign (dbHidden False) ''school'' reqHidden)))
             ''room''))
   \<and> conflicting (snd (snd (manualAssign (dbHidden False) ''school'' reqHidden))) 1
         (mkSeat ''S2'' 1 1 1) (mkSeat ''S3'' 1 2 1)
   \<and> manualAssign (dbHidden True) ''school'' reqHidden =
       (ManDuplicateAssignment,
        [DeleteMany ''room'' [''S1'', ''S3''],
         CreateMany [mkSeat ''S1'' 1 1 1, mkSeat ''S3'' 1 2 1]],
        dbHidden True)"
  by code_simp

end
